theory Spec2Isabelle
  imports Main
begin

section \<open>JavaScript values and builtins used by pair.js\<close>

text \<open>
  A string is the list of its UTF-16 code units, which is what \<open>length\<close>, \<open>slice\<close>,
  \<open>startsWith\<close>, \<open>trim\<close> and the regular expressions of the program work on; \<open>js\<close>
  gives the code units of a literal of ASCII characters. \<open>undefined\<close> is \<^term>\<open>None\<close>.
  \<open>Date.now()\<close>, the timestamps and the retry counters are integers, exact as JavaScript
  numbers below \<open>2 ^ 53\<close>.
\<close>

type_synonym jstring = "int list"

definition js :: "string \<Rightarrow> jstring" where
  "js s = map of_char s"

text \<open>The message of an error is a label of the model, not a string of the program.\<close>

datatype js_error =
    ReferenceError string
  | TypeError string
  | Rejected string

text \<open>
  The values a property of the configuration object can have. A number is kept as the
  string \<open>String()\<close> gives for it (\<open>3\<close> as \<open>"3"\<close>, \<open>1e21\<close> as \<open>"1e+21"\<close>): the
  program reads a number of the configuration only through \<open>parseInt\<close> and template
  literals, which convert it to that string first, and through its truthiness.
\<close>

datatype jsval = JStr jstring | JNum jstring | JArr "jstring list"

definition is_digit :: "int \<Rightarrow> bool" where
  "is_digit c = (48 \<le> c \<and> c \<le> 57)"

definition digit_val :: "int \<Rightarrow> int" where
  "digit_val c = c - 48"

definition digits_value :: "jstring \<Rightarrow> int" where
  "digits_value ds = foldl (\<lambda>a c. 10 * a + digit_val c) 0 ds"

definition is_hex :: "int \<Rightarrow> bool" where
  "is_hex c = (is_digit c \<or> (65 \<le> c \<and> c \<le> 70) \<or> (97 \<le> c \<and> c \<le> 102))"

definition hex_val :: "int \<Rightarrow> int" where
  "hex_val c = (if is_digit c then c - 48 else if c \<le> 70 then c - 55 else c - 87)"

definition hex_value :: "jstring \<Rightarrow> int" where
  "hex_value ds = foldl (\<lambda>a c. 16 * a + hex_val c) 0 ds"

text \<open>
  The white space of \<open>trim\<close>, of \<open>parseInt\<close> and of the class \<open>\s\<close>: the WhiteSpace and
  LineTerminator code points of ECMAScript, which are TAB, LF, VT, FF, CR, SP, U+00A0,
  U+1680, U+2000 to U+200A, U+2028, U+2029, U+202F, U+205F, U+3000 and U+FEFF.
\<close>

definition is_space :: "int \<Rightarrow> bool" where
  "is_space c =
     (c \<in> {9, 10, 11, 12, 13, 32, 160, 5760, 8232, 8233, 8239, 8287, 12288, 65279}
      \<or> (8192 \<le> c \<and> c \<le> 8202))"

definition trim :: "jstring \<Rightarrow> jstring" where
  "trim s = rev (dropWhile is_space (rev (dropWhile is_space s)))"

definition startsWith :: "jstring \<Rightarrow> jstring \<Rightarrow> bool" where
  "startsWith s p = (take (length p) s = p)"

definition endsWith :: "jstring \<Rightarrow> jstring \<Rightarrow> bool" where
  "endsWith s p = (length p \<le> length s \<and> drop (length s - length p) s = p)"

fun join :: "jstring \<Rightarrow> jstring list \<Rightarrow> jstring" where
  "join sep [] = []"
| "join sep [x] = x"
| "join sep (x # y # ys) = x @ sep @ join sep (y # ys)"

text \<open>
  \<open>parseInt(s)\<close> with no radix: leading white space, an optional sign, a \<open>0x\<close> prefix for
  base 16, then the longest run of digits; \<open>NaN\<close> (\<^term>\<open>None\<close>) when the run is empty.
\<close>

definition parseInt :: "jstring \<Rightarrow> int option" where
  "parseInt s =
     (let s1 = dropWhile is_space s;
          sign = (if take 1 s1 = js ''-'' then - 1 else (1 :: int));
          s2 = (if take 1 s1 = js ''-'' \<or> take 1 s1 = js ''+'' then drop 1 s1 else s1)
      in if take 2 s2 = js ''0x'' \<or> take 2 s2 = js ''0X''
         then (let ds = takeWhile is_hex (drop 2 s2)
               in if ds = [] then None else Some (sign * hex_value ds))
         else (let ds = takeWhile is_digit s2
               in if ds = [] then None else Some (sign * digits_value ds)))"

text \<open>The decimal digits of an integer that is not negative.\<close>

function show_digits :: "int \<Rightarrow> jstring" where
  "show_digits n =
     (if n < 10 then [48 + n]
      else show_digits (n div 10) @ [48 + n mod 10])"
  by pat_completeness auto
termination
  by (relation "measure nat") auto

text \<open>\<open>String(i)\<close> for an integer \<open>i\<close> the program computes (of magnitude below \<open>10 ^ 21\<close>).\<close>

definition show_int :: "int \<Rightarrow> jstring" where
  "show_int i = (if i < 0 then js ''-'' @ show_digits (- i) else show_digits i)"

text \<open>\<open>String(v)\<close>, as a template literal and \<open>parseInt\<close> convert their argument.\<close>

fun toString :: "jsval option \<Rightarrow> jstring" where
  "toString None = js ''undefined''"
| "toString (Some (JStr s)) = s"
| "toString (Some (JNum s)) = s"
| "toString (Some (JArr xs)) = join (js '','') xs"

text \<open>\<open>parseInt(v)\<close> for a value: \<open>parseInt\<close> of \<open>String(v)\<close>.\<close>

definition parseInt_val :: "jsval option \<Rightarrow> int option" where
  "parseInt_val v = parseInt (toString v)"

text \<open>A plain object with string keys: its own properties in creation order.\<close>

type_synonym jsobject = "(jstring \<times> jsval) list"

definition get_prop :: "jsobject \<Rightarrow> jstring \<Rightarrow> jsval option" where
  "get_prop obj k = map_of obj k"

fun set_prop :: "jsobject \<Rightarrow> jstring \<Rightarrow> jsval \<Rightarrow> jsobject" where
  "set_prop [] k v = [(k, v)]"
| "set_prop ((k', v') # rest) k v =
     (if k' = k then (k, v) # rest else (k', v') # set_prop rest k v)"

section \<open>Messages of the \<open>messages.upsert\<close> event\<close>

record msg_key =
  remoteJid :: "jstring option"
  participant :: "jstring option"

record extended_text =
  etext :: "jstring option"

record buttons_response =
  selectedButtonId :: "jstring option"

record media_message =
  caption :: "jstring option"

record message_content =
  conversation :: "jstring option"
  extendedTextMessage :: "extended_text option"
  buttonsResponseMessage :: "buttons_response option"
  imageMessage :: "media_message option"
  videoMessage :: "media_message option"

record wa_msg =
  key :: "msg_key option"
  message :: "message_content option"

text \<open>Truthiness of a string-valued property: present and not empty.\<close>

fun truthy :: "jstring option \<Rightarrow> bool" where
  "truthy None = False"
| "truthy (Some s) = (s \<noteq> [])"

section \<open>\<open>setupStatusHandlers\<close>\<close>

datatype status_call =
    SendPresenceUpdate jstring "jstring option"
  | ReadMessages msg_key
  | SendReaction "jstring option" "jstring option" msg_key

datatype effect =
    Call status_call
  | Warn status_call int
  | Delay int
  | LogReacted "jstring option"
  | LogError js_error

datatype loop_result = Done | Skipped | Thrown js_error

text \<open>\<open>parseInt(userConfig.MAX_RETRIES) || 3\<close>\<close>

definition maxRetries :: "jsobject \<Rightarrow> int" where
  "maxRetries userConfig =
     (case parseInt_val (get_prop userConfig (js ''MAX_RETRIES'')) of
        None \<Rightarrow> 3
      | Some n \<Rightarrow> if n = 0 then 3 else n)"

text \<open>
  \<open>1000 * (parseInt(userConfig.MAX_RETRIES) || 3 - retries)\<close>: the subtraction binds
  tighter than \<open>||\<close>, so \<open>3 - retries\<close> is read only when the parsed value is \<open>NaN\<close>
  or \<open>0\<close>.
\<close>

definition retryDelay :: "jsobject \<Rightarrow> int \<Rightarrow> int" where
  "retryDelay userConfig retries =
     1000 * (case parseInt_val (get_prop userConfig (js ''MAX_RETRIES'')) of
               None \<Rightarrow> 3 - retries
             | Some n \<Rightarrow> if n = 0 then 3 - retries else n)"

text \<open>
  The two retry loops (lines 215-226 for \<open>readMessages\<close>, lines 233-250 for the reaction)
  have the same body but for the socket call. \<open>attempt i\<close> is the outcome of the
  \<open>i\<close>-th call of this loop: \<^term>\<open>None\<close> when the promise resolves, the error when it
  rejects. The result is \<^term>\<open>Done\<close> after the \<open>break\<close>, \<^term>\<open>Thrown\<close> after
  \<open>throw error\<close>, and \<^term>\<open>Skipped\<close> when the loop condition fails at entry.
\<close>

function retryLoop ::
  "jsobject \<Rightarrow> status_call \<Rightarrow> (nat \<Rightarrow> js_error option) \<Rightarrow> int \<Rightarrow> nat \<Rightarrow> loop_result \<times> effect list"
where
  "retryLoop userConfig call attempt retries i =
     (if retries > 0 then
        (case attempt i of
           None \<Rightarrow> (Done, [Call call])
         | Some e \<Rightarrow>
             (if retries - 1 = 0 then (Thrown e, [Call call, Warn call (retries - 1)])
              else (case retryLoop userConfig call attempt (retries - 1) (Suc i) of
                      (r, tr) \<Rightarrow>
                        (r, [Call call, Warn call (retries - 1),
                             Delay (retryDelay userConfig (retries - 1))] @ tr))))
      else (Skipped, []))"
  by pat_completeness auto
termination
  by (relation "measure (\<lambda>(userConfig, call, attempt, retries, i). nat retries)") auto

text \<open>The number of socket calls in a trace of effects.\<close>

fun is_call :: "effect \<Rightarrow> bool" where
  "is_call (Call c) = True"
| "is_call e = False"

definition attempts :: "effect list \<Rightarrow> nat" where
  "attempts tr = length (filter is_call tr)"

fun delays :: "effect list \<Rightarrow> int list" where
  "delays [] = []"
| "delays (Delay d # tr) = d # delays tr"
| "delays (e # tr) = delays tr"

text \<open>The socket calls of a trace by kind.\<close>

fun is_presence :: "status_call \<Rightarrow> bool" where
  "is_presence (SendPresenceUpdate p j) = True"
| "is_presence c = False"

fun is_read :: "status_call \<Rightarrow> bool" where
  "is_read (ReadMessages k) = True"
| "is_read c = False"

fun is_reaction :: "status_call \<Rightarrow> bool" where
  "is_reaction (SendReaction j e k) = True"
| "is_reaction c = False"

fun calls :: "(status_call \<Rightarrow> bool) \<Rightarrow> effect list \<Rightarrow> nat" where
  "calls P [] = 0"
| "calls P (Call c # tr) = (if P c then Suc (calls P tr) else calls P tr)"
| "calls P (e # tr) = calls P tr"

definition defaultConfig :: jsobject where
  "defaultConfig =
     [(js ''AUTO_VIEW_STATUS'', JStr (js ''true'')),
      (js ''AUTO_LIKE_STATUS'', JStr (js ''true'')),
      (js ''AUTO_RECORDING'', JStr (js ''true'')),
      (js ''AUTO_LIKE_EMOJI'', JArr
         [[0xD83D, 0xDCA5], [0xD83D, 0xDC4D],
          [0xD83D, 0xDE0D], [0xD83D, 0xDC97],
          [0xD83C, 0xDF88], [0xD83C, 0xDF89],
          [0xD83E, 0xDD73], [0xD83D, 0xDE0E],
          [0xD83D, 0xDE80], [0xD83D, 0xDD25]]),
      (js ''PREFIX'', JStr (js ''.'')),
      (js ''MAX_RETRIES'', JNum (js ''3'')),
      (js ''ADMIN_LIST_PATH'', JStr (js ''./admin.json'')),
      (js ''IMAGE_PATH'', JStr (js ''./dyby.png'')),
      (js ''OWNER_NUMBER'', JStr [])]"

text \<open>
  What the surroundings decide for one status event: the clock, whether each socket call
  resolves or rejects, and the value of \<open>Math.random()\<close>, read through
  \<open>Math.floor(Math.random() * emojis.length)\<close> as an index below the length.
\<close>

record status_env =
  dateNow :: int
  presenceOutcome :: "js_error option"
  readOutcome :: "nat \<Rightarrow> js_error option"
  reactOutcome :: "nat \<Rightarrow> js_error option"
  random :: nat

definition is_true :: "jsobject \<Rightarrow> jstring \<Rightarrow> bool" where
  "is_true userConfig k = (get_prop userConfig k = Some (JStr (js ''true'')))"

text \<open>\<open>emojis[Math.floor(Math.random() * emojis.length)]\<close>: \<open>undefined\<close> on an empty array.\<close>

definition randomEmoji :: "jsobject \<Rightarrow> nat \<Rightarrow> jstring option" where
  "randomEmoji userConfig r =
     (let emojis = (case get_prop userConfig (js ''AUTO_LIKE_EMOJI'') of
                      Some (JArr xs) \<Rightarrow> xs
                    | _ \<Rightarrow> (case get_prop defaultConfig (js ''AUTO_LIKE_EMOJI'') of
                              Some (JArr ys) \<Rightarrow> ys | _ \<Rightarrow> []))
      in if emojis = [] then None else Some (emojis ! (r mod length emojis)))"

text \<open>Lines 210-212: one call, no loop.\<close>

definition recordingStep :: "jsobject \<Rightarrow> msg_key \<Rightarrow> status_env \<Rightarrow> loop_result \<times> effect list" where
  "recordingStep userConfig k env =
     (if is_true userConfig (js ''AUTO_RECORDING'') \<and> truthy (remoteJid k) then
        (case presenceOutcome env of
           None \<Rightarrow> (Done, [Call (SendPresenceUpdate (js ''recording'') (remoteJid k))])
         | Some e \<Rightarrow> (Thrown e, [Call (SendPresenceUpdate (js ''recording'') (remoteJid k))]))
      else (Skipped, []))"

text \<open>Lines 214-227.\<close>

definition viewStep :: "jsobject \<Rightarrow> msg_key \<Rightarrow> status_env \<Rightarrow> loop_result \<times> effect list" where
  "viewStep userConfig k env =
     (if is_true userConfig (js ''AUTO_VIEW_STATUS'') then
        retryLoop userConfig (ReadMessages k) (readOutcome env) (maxRetries userConfig) 0
      else (Skipped, []))"

text \<open>Lines 229-251, but for the assignment to \<open>lastStatusInteraction\<close>.\<close>

definition likeStep :: "jsobject \<Rightarrow> msg_key \<Rightarrow> status_env \<Rightarrow> loop_result \<times> effect list" where
  "likeStep userConfig k env =
     (if is_true userConfig (js ''AUTO_LIKE_STATUS'') then
        (case retryLoop userConfig
                (SendReaction (remoteJid k) (randomEmoji userConfig (random env)) k)
                (reactOutcome env) (maxRetries userConfig) 0 of
           (Done, tr) \<Rightarrow> (Done, tr @ [LogReacted (randomEmoji userConfig (random env))])
         | (r, tr) \<Rightarrow> (r, tr))
      else (Skipped, []))"

text \<open>
  The \<open>try\<close> block of the handler (lines 209-254): the three steps in order, the first
  error ends the block in the \<open>catch\<close>, which logs it. \<open>lastStatusInteraction\<close> is
  assigned in one place, after a reaction that was sent.
\<close>

definition statusActions :: "jsobject \<Rightarrow> int \<Rightarrow> msg_key \<Rightarrow> status_env \<Rightarrow> int \<times> effect list" where
  "statusActions userConfig lastStatusInteraction k env =
     (case recordingStep userConfig k env of
        (Thrown e, tr1) \<Rightarrow> (lastStatusInteraction, tr1 @ [LogError e])
      | (_, tr1) \<Rightarrow>
          (case viewStep userConfig k env of
             (Thrown e, tr2) \<Rightarrow> (lastStatusInteraction, tr1 @ tr2 @ [LogError e])
           | (_, tr2) \<Rightarrow>
               (case likeStep userConfig k env of
                  (Thrown e, tr3) \<Rightarrow> (lastStatusInteraction, tr1 @ tr2 @ tr3 @ [LogError e])
                | (Done, tr3) \<Rightarrow> (dateNow env, tr1 @ tr2 @ tr3)
                | (Skipped, tr3) \<Rightarrow> (lastStatusInteraction, tr1 @ tr2 @ tr3))))"

definition STATUS_INTERACTION_COOLDOWN :: int where
  "STATUS_INTERACTION_COOLDOWN = 10000"

text \<open>
  The listener of \<open>messages.upsert\<close> (lines 199-255) on \<open>messages[0]\<close>, run to its end:
  the new value of \<open>lastStatusInteraction\<close> and the effects, in order.
\<close>

definition statusHandler :: "jsobject \<Rightarrow> int \<Rightarrow> wa_msg \<Rightarrow> status_env \<Rightarrow> int \<times> effect list" where
  "statusHandler userConfig lastStatusInteraction msg env =
     (case key msg of
        None \<Rightarrow> (lastStatusInteraction, [])
      | Some k \<Rightarrow>
          if remoteJid k \<noteq> Some (js ''status@broadcast'') \<or> \<not> truthy (participant k)
          then (lastStatusInteraction, [])
          else if dateNow env - lastStatusInteraction < STATUS_INTERACTION_COOLDOWN
          then (lastStatusInteraction, [])
          else statusActions userConfig lastStatusInteraction k env)"

text \<open>A run of the listener over the events of one socket, in arrival order.\<close>

fun statusRun :: "jsobject \<Rightarrow> int \<Rightarrow> (wa_msg \<times> status_env) list \<Rightarrow> int \<times> effect list" where
  "statusRun userConfig lastStatusInteraction [] = (lastStatusInteraction, [])"
| "statusRun userConfig lastStatusInteraction ((msg, env) # evs) =
     (case statusHandler userConfig lastStatusInteraction msg env of
        (last', tr) \<Rightarrow>
          (case statusRun userConfig last' evs of
             (last'', tr') \<Rightarrow> (last'', tr @ tr')))"

section \<open>Effects of the status listener, and inputs for its examples\<close>

definition statusEffects :: "jsobject \<Rightarrow> int \<Rightarrow> wa_msg \<Rightarrow> status_env \<Rightarrow> effect list" where
  "statusEffects userConfig lastStatusInteraction msg env =
     snd (statusHandler userConfig lastStatusInteraction msg env)"

text \<open>
  The delay as the specification words it, "1000 ms times attempts remaining"; the code's
  own is \<^const>\<open>retryDelay\<close>.
\<close>

definition claimed_retryDelay :: "int \<Rightarrow> int" where
  "claimed_retryDelay retries = 1000 * retries"

definition statusMsg :: wa_msg where
  "statusMsg = \<lparr>key = Some \<lparr>remoteJid = Some (js ''status@broadcast''),
                               participant = Some (js ''94770000000@s.whatsapp.net'')\<rparr>,
                 message = None\<rparr>"

definition allResolve :: "int \<Rightarrow> status_env" where
  "allResolve t = \<lparr>dateNow = t, presenceOutcome = None, readOutcome = (\<lambda>j. None),
                    reactOutcome = (\<lambda>j. None), random = 0\<rparr>"

definition configWithoutMaxRetries :: jsobject where
  "configWithoutMaxRetries =
     [(js ''AUTO_VIEW_STATUS'', JStr (js ''true'')), (js ''AUTO_LIKE_STATUS'', JStr (js ''true'')),
      (js ''AUTO_RECORDING'', JStr (js ''true''))]"

definition configLikeOff :: jsobject where
  "configLikeOff =
     [(js ''AUTO_VIEW_STATUS'', JStr (js ''true'')), (js ''AUTO_LIKE_STATUS'', JStr (js ''false'')),
      (js ''AUTO_RECORDING'', JStr (js ''true'')), (js ''MAX_RETRIES'', JNum (js ''3''))]"

definition fiveStatusEvents :: "(wa_msg \<times> status_env) list" where
  "fiveStatusEvents =
     [(statusMsg, allResolve 1700000000000), (statusMsg, allResolve 1700000001000),
      (statusMsg, allResolve 1700000002000), (statusMsg, allResolve 1700000003000),
      (statusMsg, allResolve 1700000004000)]"

definition statusKey :: msg_key where
  "statusKey = \<lparr>remoteJid = Some (js ''status@broadcast''),
                 participant = Some (js ''94770000000@s.whatsapp.net'')\<rparr>"

definition configFiveRetries :: jsobject where
  "configFiveRetries =
     [(js ''AUTO_VIEW_STATUS'', JStr (js ''true'')), (js ''AUTO_LIKE_STATUS'', JStr (js ''true'')),
      (js ''AUTO_RECORDING'', JStr (js ''false'')), (js ''MAX_RETRIES'', JStr (js ''5''))]"

text \<open>The first \<open>n\<close> calls of each retry loop reject, the later ones resolve.\<close>

definition rejecting :: "nat \<Rightarrow> status_env" where
  "rejecting n =
     \<lparr>dateNow = 1700000000000, presenceOutcome = None,
      readOutcome = (\<lambda>j. if j < n then Some (Rejected ''timed out'') else None),
      reactOutcome = (\<lambda>j. if j < n then Some (Rejected ''not sent'') else None),
      random = 0\<rparr>"

section \<open>\<open>setupCommandHandlers\<close>\<close>

text \<open>
  \<open>toLowerCase\<close> and \<open>toUpperCase\<close> are builtins that follow the case mappings of the Unicode
  character database. The functions below that call them take the builtin as an argument
  of the same name, so that what is proved of them holds for the builtin of every engine.
  On a string of ASCII characters the builtins change the letters \<open>A\<close> to \<open>Z\<close> and \<open>a\<close> to
  \<open>z\<close> and nothing else: \<open>asciiLowerCase\<close> and \<open>asciiUpperCase\<close> are the builtins on such
  strings, for the examples.
\<close>

definition asciiLowerCase :: "jstring \<Rightarrow> jstring" where
  "asciiLowerCase s = map (\<lambda>c. if 65 \<le> c \<and> c \<le> 90 then c + 32 else c) s"

definition asciiUpperCase :: "jstring \<Rightarrow> jstring" where
  "asciiUpperCase s = map (\<lambda>c. if 97 \<le> c \<and> c \<le> 122 then c - 32 else c) s"

text \<open>
  \<open>s.split(/\s+/)\<close>: the pieces between the maximal runs of white space; a run at
  either end leaves an empty piece there, and the empty string gives one empty piece.
  \<open>acc\<close> is the piece being read, reversed; \<open>in_run\<close> says that the last character
  read was white space.
\<close>

fun split_ws_from :: "jstring \<Rightarrow> bool \<Rightarrow> jstring \<Rightarrow> jstring list" where
  "split_ws_from acc in_run [] = [rev acc]"
| "split_ws_from acc in_run (c # cs) =
     (if is_space c then
        (if in_run then split_ws_from acc True cs
         else rev acc # split_ws_from [] True cs)
      else split_ws_from (c # acc) False cs)"

definition split_ws :: "jstring \<Rightarrow> jstring list" where
  "split_ws s = split_ws_from [] False s"

text \<open>\<open>s.split(sep)\<close> for a separator of one code unit; \<open>0x2C\<close> is the comma.\<close>

fun split_on :: "int \<Rightarrow> jstring \<Rightarrow> jstring list" where
  "split_on sep [] = [[]]"
| "split_on sep (c # cs) =
     (if c = sep then [] # split_on sep cs
      else (case split_on sep cs of
              [] \<Rightarrow> [[c]]
            | piece # pieces \<Rightarrow> (c # piece) # pieces))"

text \<open>
  Truthiness of a property value; an array is truthy, also when empty, and a number is
  falsy when it is \<open>0\<close>, \<open>-0\<close> (both print as \<open>0\<close>) or \<open>NaN\<close>.
\<close>

fun js_truthy :: "jsval option \<Rightarrow> bool" where
  "js_truthy None = False"
| "js_truthy (Some (JStr s)) = (s \<noteq> [])"
| "js_truthy (Some (JNum s)) = (s \<noteq> js ''0'' \<and> s \<noteq> js ''NaN'')"
| "js_truthy (Some (JArr xs)) = True"

text \<open>The value of a truthy string property.\<close>

fun str_of :: "jstring option \<Rightarrow> jstring" where
  "str_of None = []"
| "str_of (Some s) = s"

text \<open>
  Lines 281-293. \<open>a?.b\<close> is \<^const>\<open>Option.bind\<close>: \<open>undefined\<close> when \<open>a\<close> is.
\<close>

definition extractText :: "message_content \<Rightarrow> jstring" where
  "extractText m =
     (if truthy (conversation m) then trim (str_of (conversation m))
      else if truthy (Option.bind (extendedTextMessage m) etext)
        then trim (str_of (Option.bind (extendedTextMessage m) etext))
      else if truthy (Option.bind (buttonsResponseMessage m) selectedButtonId)
        then trim (str_of (Option.bind (buttonsResponseMessage m) selectedButtonId))
      else if truthy (Option.bind (imageMessage m) caption)
        then trim (str_of (Option.bind (imageMessage m) caption))
      else if truthy (Option.bind (videoMessage m) caption)
        then trim (str_of (Option.bind (videoMessage m) caption))
      else [])"

text \<open>
  \<open>const prefix = userConfig.PREFIX || '.'\<close>, as the two places that read it see it: the
  string \<open>text.startsWith(prefix)\<close> looks for, and the number \<open>text.slice(prefix.length)\<close>
  starts at. For a string both are the string's; a number has no \<open>length\<close> (the slice
  starts at 0) and an array has its own.
\<close>

fun prefixOf :: "jsval option \<Rightarrow> jstring \<times> nat" where
  "prefixOf None = (js ''.'', 1)"
| "prefixOf (Some (JStr s)) = (if s = [] then (js ''.'', 1) else (s, length s))"
| "prefixOf (Some (JNum s)) = (if js_truthy (Some (JNum s)) then (s, 0) else (js ''.'', 1))"
| "prefixOf (Some (JArr xs)) = (join (js '','') xs, length xs)"

definition COMMAND_COOLDOWN :: int where
  "COMMAND_COOLDOWN = 1000"

text \<open>
  How the listener leaves one event: \<^term>\<open>Ignored\<close> by a \<open>return\<close> before the
  \<open>switch\<close>, \<^term>\<open>Dispatched command args\<close> on entering \<open>switch (command)\<close>, or
  \<^term>\<open>Failed\<close> by an exception outside the \<open>try\<close>.
\<close>

datatype handler_result =
    Ignored
  | Dispatched jstring "jstring list"
  | Failed js_error

text \<open>
  The listener of lines 263-312 on \<open>messages[0]\<close>, up to the \<open>switch\<close>.
  \<open>commandCooldowns\<close> is the \<open>Map\<close> from \<open>sender\<close>, which line 300 sets to
  \<open>msg.key.remoteJid\<close> (the chat the message is in: the group for a message in a group,
  whose author is \<open>msg.key.participant\<close>), to the time of the last command let through.
  The newsletter block of lines 268-278 swallows its own exceptions and touches neither
  the map nor the control flow; it is left out.
\<close>

definition commandHandler ::
  "(jstring \<Rightarrow> jstring) \<Rightarrow> jsobject \<Rightarrow> (jstring option \<rightharpoonup> int) \<Rightarrow> wa_msg \<Rightarrow> int
     \<Rightarrow> (jstring option \<rightharpoonup> int) \<times> handler_result"
where
  "commandHandler toLowerCase userConfig commandCooldowns msg now =
     (case message msg of
        None \<Rightarrow> (commandCooldowns, Ignored)
      | Some m \<Rightarrow>
          (case key msg of
             None \<Rightarrow> (commandCooldowns, Failed (TypeError ''msg.key is undefined''))
           | Some k \<Rightarrow>
               if remoteJid k = Some (js ''status@broadcast'') then (commandCooldowns, Ignored)
               else
                 (let text = extractText m;
                      prefix = prefixOf (get_prop userConfig (js ''PREFIX''))
                  in if \<not> startsWith text (fst prefix) then (commandCooldowns, Ignored)
                     else
                       (let sender = remoteJid k
                        in if (case commandCooldowns sender of
                                 None \<Rightarrow> False
                               | Some t \<Rightarrow> now - t < COMMAND_COOLDOWN)
                           then (commandCooldowns, Ignored)
                           else
                             (case split_ws (trim (drop (snd prefix) text)) of
                                [] \<Rightarrow> (commandCooldowns(sender \<mapsto> now),
                                       Failed (TypeError ''parts[0] is undefined''))
                              | p # ps \<Rightarrow> (commandCooldowns(sender \<mapsto> now),
                                          Dispatched (toLowerCase p) ps))))))"

text \<open>A run of the listener over the events of one socket, in arrival order.\<close>

fun commandRun ::
  "(jstring \<Rightarrow> jstring) \<Rightarrow> jsobject \<Rightarrow> (jstring option \<rightharpoonup> int) \<Rightarrow> (wa_msg \<times> int) list
     \<Rightarrow> (jstring option \<rightharpoonup> int) \<times> handler_result list"
where
  "commandRun toLowerCase userConfig commandCooldowns [] = (commandCooldowns, [])"
| "commandRun toLowerCase userConfig commandCooldowns ((msg, now) # evs) =
     (case commandHandler toLowerCase userConfig commandCooldowns msg now of
        (cooldowns', r) \<Rightarrow>
          (case commandRun toLowerCase userConfig cooldowns' evs of
             (cooldowns'', rs) \<Rightarrow> (cooldowns'', r # rs)))"

subsection \<open>The \<open>config\<close> and \<open>menu\<close> cases of the \<open>switch\<close>\<close>

datatype command_effect =
    UpdateUserConfig jstring jsobject
  | SendText "jstring option" jstring
  | SendImage "jstring option" jstring jstring

text \<open>
  \<open>Object.entries\<close>: the keys that are array indices (canonical decimal numbers below
  \<open>2 ^ 32 - 1\<close>) first, in ascending order, then the other keys in creation order.
\<close>

definition is_array_index :: "jstring \<Rightarrow> bool" where
  "is_array_index k =
     (k \<noteq> [] \<and> list_all is_digit k \<and> show_digits (digits_value k) = k
      \<and> digits_value k < 4294967295)"

definition entries :: "jsobject \<Rightarrow> (jstring \<times> jsval) list" where
  "entries obj =
     sort_key (\<lambda>kv. digits_value (fst kv)) (filter (\<lambda>kv. is_array_index (fst kv)) obj)
     @ filter (\<lambda>kv. \<not> is_array_index (fst kv)) obj"

definition footer :: jstring where
  "footer = js ''> '' @ [0x00A9] @ js '' *'' @ [0x1D1B, 0x029C, 0x026A, 0xA731] @
      js '' '' @ [0x0299, 0x1D0F, 0x1D1B] @ js '' '' @ [0x1D29, 0x1D0F, 0x1D21, 0x1D07, 0x0280, 0x1D07, 0x1D05] @ js '' '' @ [0x0299] @ js ''y NABEED*''"

text \<open>One line of \<open>config view\<close> (line 357).\<close>

fun viewValue :: "jsval \<Rightarrow> jstring" where
  "viewValue (JArr xs) = join (js '', '') xs"
| "viewValue v = toString (Some v)"

definition viewLine :: "jstring \<times> jsval \<Rightarrow> jstring" where
  "viewLine kv = [0x2022] @ js '' '' @ fst kv @ js '': '' @ viewValue (snd kv) @ [0x000A]"

definition configHeader :: jstring where
  "configHeader =
     js ''*'' @ [0xD83D, 0xDCCB] @ js '' Your Current Config:*'' @
     [0x000A, 0x000A]"

definition configText :: "jsobject \<Rightarrow> jstring" where
  "configText userConfig =
     configHeader @ concat (map viewLine (entries userConfig)) @ [0x000A] @ footer"

text \<open>
  Modelled from the spec: \<open>updateUserConfig\<close> is called at line 349 and defined in no line of
  the source at hand. The specification's ConfigStore "loads/saves per-number JSON
  configuration": the call is an effect on the store that resolves or rejects
  (\<open>updateOutcome\<close>) and leaves the object it is given as it is. \<open>sendOutcome\<close> is the
  outcome of \<open>socket.sendMessage\<close>.
\<close>

record command_env =
  updateOutcome :: "js_error option"
  sendOutcome :: "js_error option"

definition send :: "command_env \<Rightarrow> command_effect \<Rightarrow> command_effect list \<times> js_error option" where
  "send env eff = ([eff], sendOutcome env)"

text \<open>
  Lines 337-368. The result is the configuration object after the case, the effects in
  order, and the exception that leaves the \<open>switch\<close>, if any.
\<close>

definition configSet ::
  "(jstring \<Rightarrow> jstring) \<Rightarrow> jsobject \<Rightarrow> jstring \<Rightarrow> jstring option \<Rightarrow> jstring \<Rightarrow> jstring list
     \<Rightarrow> command_env \<Rightarrow> jsobject \<times> command_effect list \<times> js_error option"
where
  "configSet toUpperCase userConfig number sender key_arg value_args env =
     (let configKey = toUpperCase key_arg;
          configValue = join (js '' '') value_args;
          userConfig' = set_prop userConfig configKey
             (if configKey = js ''AUTO_LIKE_EMOJI'' then JArr (split_on 0x2C configValue)
              else JStr configValue)
      in case updateOutcome env of
           Some e \<Rightarrow> (userConfig', [UpdateUserConfig number userConfig'], Some e)
         | None \<Rightarrow>
             (userConfig',
              [UpdateUserConfig number userConfig',
               SendText sender ([0x2705] @ js '' Config updated: '' @ configKey @ js '' = '' @ configValue
                   @ [0x000A, 0x000A] @ footer)],
              sendOutcome env))"

definition configInvalid :: "jstring \<Rightarrow> jstring" where
  "configInvalid prefix =
     [0x274C] @ js '' Invalid config command. Usage:'' @ [0x000A]
     @ prefix @ js ''config set [key] [value]'' @ [0x000A]
     @ prefix @ js ''config view'' @ [0x000A, 0x000A] @ footer"

fun configCommand ::
  "(jstring \<Rightarrow> jstring) \<Rightarrow> jsobject \<Rightarrow> jstring \<Rightarrow> jstring option \<Rightarrow> jstring \<Rightarrow> jstring list
     \<Rightarrow> command_env \<Rightarrow> jsobject \<times> command_effect list \<times> js_error option"
where
  "configCommand toUpperCase userConfig number sender prefix (a0 # a1 # a2 # rest) env =
     (if a0 = js ''set''
        then configSet toUpperCase userConfig number sender a1 (a2 # rest) env
      else if a0 = js ''view''
        then (userConfig, send env (SendText sender (configText userConfig)))
      else (userConfig, send env (SendText sender (configInvalid prefix))))"
| "configCommand toUpperCase userConfig number sender prefix (a0 # rest) env =
     (if a0 = js ''view''
        then (userConfig, send env (SendText sender (configText userConfig)))
      else (userConfig, send env (SendText sender (configInvalid prefix))))"
| "configCommand toUpperCase userConfig number sender prefix [] env =
     (userConfig, send env (SendText sender (configInvalid prefix)))"

text \<open>
  The \<open>menu\<close> case, lines 370-412. What it reads from its surroundings:
  \<open>socketCreationTime.get(number)\<close>, the two readings of \<open>Date.now()\<close>, the resident and
  total memory in MB after \<open>Math.round\<close>, and the outcome of \<open>socket.sendMessage\<close>.
\<close>

record menu_env =
  creationTime :: "int option"
  clock1 :: int
  clock2 :: int
  ramUsage :: int
  totalRam :: int
  menuSendOutcome :: "js_error option"

text \<open>\<open>a % b\<close> on integers: the remainder has the sign of \<open>a\<close>.\<close>

definition js_rem :: "int \<Rightarrow> int \<Rightarrow> int" where
  "js_rem a b = sgn a * (\<bar>a\<bar> mod \<bar>b\<bar>)"

text \<open>
  An identifier resolves through the bindings in scope; one that none of them declares
  raises a \<open>ReferenceError\<close>.
\<close>

definition resolve :: "(string \<times> jsobject) list \<Rightarrow> string \<Rightarrow> js_error + jsobject" where
  "resolve bindings x =
     (case map_of bindings x of
        None \<Rightarrow> Inl (ReferenceError x)
      | Some obj \<Rightarrow> Inr obj)"

text \<open>
  The objects the source at hand (lines 1-493) binds to an identifier in the scope of the
  \<open>menu\<close> case: the module's \<open>defaultConfig\<close> and the parameter \<open>userConfig\<close> of
  \<open>setupCommandHandlers\<close>. The source at hand ends inside \<open>setupCommandHandlers\<close>;
  \<open>later\<close> stands for what the rest of the module binds.
\<close>

definition scope :: "jsobject \<Rightarrow> (string \<times> jsobject) list \<Rightarrow> (string \<times> jsobject) list" where
  "scope userConfig later =
     [(''userConfig'', userConfig), (''defaultConfig'', defaultConfig)] @ later"

text \<open>The template literal of lines 381-405, with \<open>p\<close> for \<open>config.PREFIX\<close>.\<close>

definition menuCaption ::
  "jstring \<Rightarrow> int \<Rightarrow> int \<Rightarrow> int \<Rightarrow> int \<Rightarrow> int \<Rightarrow> jstring \<Rightarrow> jstring" where
  "menuCaption number hours minutes seconds ramMB totalMB p =
     [0x000A, 0xD83D, 0xDC4B] @ js '' *Hi '' @ number @ js ''*'' @
     [0x000A, 0x000A, 0x256D, 0x2500, 0x2500, 0x2500, 0x300E] @ js '' *Glassix-'' @ [0xD835, 0xDC0C, 0xD835, 0xDC22, 0xD835, 0xDC27, 0xD835, 0xDC22] @ js '' '' @ [0xD835, 0xDC01, 0xD835, 0xDC28, 0xD835, 0xDC2D] @
     js '' '' @ [0xD835, 0xDC22, 0xD835, 0xDC2C] @ js '' '' @ [0xD835, 0xDC00, 0xD835, 0xDC1C, 0xD835, 0xDC2D, 0xD835, 0xDC22, 0xD835, 0xDC2F] @ js ''e* '' @ [0x300F, 0x000A, 0x2502] @ js '' '' @ [0xD83D, 0xDC7E] @ js '' *'' @ [0x0299, 0x1D0F, 0x1D1B] @ js ''*: GlassiX-'' @ [0xD835, 0xDC0C, 0xD835, 0xDC22, 0xD835, 0xDC27, 0xD835, 0xDC22, 0x000A, 0x2502] @ js '' '' @ [0xD83D, 0xDCDE] @ js '' *'' @
     [0x1D0F, 0x1D21, 0x0274, 0x1D07, 0x0280] @ js ''*: NABEED'' @ [0x000A, 0x2502] @ js '' '' @ [0x23F3] @ js '' *'' @
     [0x1D1C, 0x1D18, 0x1D1B, 0x026A, 0x1D0D, 0x1D07] @ js ''*: '' @ show_int hours @ js ''h '' @ show_int minutes @ js ''m '' @
     show_int seconds @ js ''s'' @ [0x000A, 0x2502] @ js '' '' @
     [0xD83D, 0xDCC2] @ js '' *'' @ [0x0280, 0x1D00, 0x1D0D] @ js ''*: '' @ show_int ramMB @
     js ''MB / '' @ show_int totalMB @ js ''MB'' @ [0x000A, 0x2502] @
     js '' '' @ [0x270F, 0xFE0F] @ js '' *'' @
     [0x1D18, 0x0280, 0x1D07, 0x0493, 0x026A] @ js ''x*: '' @ p @ [0x000A, 0x2570, 0x2500, 0x2500, 0x2500, 0x2500, 0x2500, 0x2500, 0x2500, 0x2500, 0x2500, 0x2500, 0x2500, 0x2500, 0x2500, 0x2500, 0x2500, 0x2500, 0x2500, 0x2500, 0x2500, 0x2500, 0x2500, 0x256F, 0x000A, 0x000A, 0x26A1] @ js '' Commands:'' @ [0x000A] @ js ''- '' @ p @ js ''alive'' @ [0x000A] @
     js ''- '' @ p @ js ''menu'' @ [0x000A] @ js ''- '' @ p @ js ''ping'' @ [0x000A] @ js ''- '' @
     p @ js ''uptime'' @ [0x000A] @ js ''- '' @ p @ js ''repo'' @ [0x000A] @ js ''- '' @ p @
     js ''pair'' @ [0x000A] @ js ''- '' @ p @ js ''tagall'' @ [0x000A] @ js ''- '' @ p @
     js ''deleteme / confirm'' @ [0x000A] @ js ''- '' @ p @
     js ''fb <url> - Download Facebook video'' @ [0x000A] @ js ''- '' @ p @
     js ''song <query> - Search and download songs'' @ [0x000A] @ js ''- '' @ p @
     js ''ytaudio <url> - Download YouTube audio'' @ [0x000A] @ js ''- '' @ p @
     js ''getpp <number> - Get profile picture of any number'' @ [0x000A]"

text \<open>
  The first thing the case does with its surroundings, after the arithmetic on the clock
  and the memory figures, is to read \<open>config.PREFIX\<close> inside the template literal; the
  only \<open>socket.sendMessage\<close> of the case comes after the literal.
\<close>

definition menuCommand ::
  "(string \<times> jsobject) list \<Rightarrow> jsobject \<Rightarrow> jstring \<Rightarrow> jstring option \<Rightarrow> menu_env
     \<Rightarrow> command_effect list \<times> js_error option"
where
  "menuCommand later userConfig number sender env =
     (let startTime = (case creationTime env of
                         None \<Rightarrow> clock1 env
                       | Some t \<Rightarrow> if t = 0 then clock1 env else t);
          uptime = (clock2 env - startTime) div 1000;
          hours = uptime div 3600;
          minutes = js_rem uptime 3600 div 60;
          seconds = js_rem uptime 60
      in case resolve (scope userConfig later) ''config'' of
           Inl e \<Rightarrow> ([], Some e)
         | Inr config \<Rightarrow>
             ([SendImage sender
                 (if js_truthy (get_prop config (js ''IMAGE_PATH''))
                  then toString (get_prop config (js ''IMAGE_PATH''))
                  else (js ''https://files.catbox.moe/tlyy2s.png''))
                 (trim (menuCaption number hours minutes seconds (ramUsage env) (totalRam env)
                          (toString (get_prop config (js ''PREFIX'')))))],
              menuSendOutcome env))"

section \<open>Notions of the specification, and inputs for the command examples\<close>

text \<open>The message sub-types in the order of precedence the specification gives.\<close>

definition subtypeTexts :: "message_content \<Rightarrow> jstring option list" where
  "subtypeTexts m =
     [conversation m,
      Option.bind (extendedTextMessage m) etext,
      Option.bind (buttonsResponseMessage m) selectedButtonId,
      Option.bind (imageMessage m) caption,
      Option.bind (videoMessage m) caption]"

text \<open>The configured prefix, as a string.\<close>

definition configuredPrefix :: "jsobject \<Rightarrow> jstring" where
  "configuredPrefix userConfig = fst (prefixOf (get_prop userConfig (js ''PREFIX'')))"

text \<open>A text shows a line when the line is a contiguous part of it.\<close>

fun str_includes :: "jstring \<Rightarrow> jstring \<Rightarrow> bool" where
  "str_includes [] sub = (sub = [])"
| "str_includes (c # cs) sub = (startsWith (c # cs) sub \<or> str_includes cs sub)"

definition cmdContent :: "jstring \<Rightarrow> message_content" where
  "cmdContent t =
     \<lparr>conversation = Some t, extendedTextMessage = None, buttonsResponseMessage = None,
      imageMessage = None, videoMessage = None\<rparr>"

definition cmdKey :: msg_key where
  "cmdKey = \<lparr>remoteJid = Some (js ''94771234567@s.whatsapp.net''), participant = None\<rparr>"

definition cmdMsg :: "jstring \<Rightarrow> wa_msg" where
  "cmdMsg t = \<lparr>key = Some cmdKey, message = Some (cmdContent t)\<rparr>"

definition resolving :: command_env where
  "resolving = \<lparr>updateOutcome = None, sendOutcome = None\<rparr>"

definition menuEnv :: menu_env where
  "menuEnv =
     \<lparr>creationTime = Some 1700000000000, clock1 = 1700000005000, clock2 = 1700003725000,
      ramUsage = 80, totalRam = 512, menuSendOutcome = None\<rparr>"

text \<open>
  A content whose plain text is the empty string, with an extended text and an image
  caption; and a content with no text at all.
\<close>

definition extendedContent :: message_content where
  "extendedContent =
     \<lparr>conversation = Some [],
      extendedTextMessage = Some \<lparr>etext = Some (js ''  .menu '')\<rparr>,
      buttonsResponseMessage = None,
      imageMessage = Some \<lparr>caption = Some (js ''.alive'')\<rparr>,
      videoMessage = None\<rparr>"

definition stickerContent :: message_content where
  "stickerContent =
     \<lparr>conversation = None, extendedTextMessage = Some \<lparr>etext = None\<rparr>,
      buttonsResponseMessage = None, imageMessage = None,
      videoMessage = Some \<lparr>caption = Some []\<rparr>\<rparr>"

text \<open>
  A message in a group: \<open>remoteJid\<close> is the group and \<open>participant\<close> the member who wrote
  it. Two groups and two members.
\<close>

definition groupMsg :: "jstring \<Rightarrow> jstring \<Rightarrow> jstring \<Rightarrow> wa_msg" where
  "groupMsg chat member t =
     \<lparr>key = Some \<lparr>remoteJid = Some chat, participant = Some member\<rparr>,
      message = Some (cmdContent t)\<rparr>"

definition familyGroup :: jstring where
  "familyGroup = js ''120363000000000001@g.us''"

definition workGroup :: jstring where
  "workGroup = js ''120363000000000002@g.us''"

definition alice :: jstring where
  "alice = js ''94771234567@s.whatsapp.net''"

definition bob :: jstring where
  "bob = js ''94777654321@s.whatsapp.net''"

text \<open>
  The text \<open>.ping now\<close> typed with a no-break space (U+00A0) before it and an em space
  (U+2003) and a tab between its words.
\<close>

definition spacedPing :: jstring where
  "spacedPing = [0x00A0] @ js ''.ping'' @ [0x2003, 0x0009] @ js ''now''"

section \<open>\<open>cleanDuplicateFiles\<close>\<close>

text \<open>An entry of the listing \<open>octokit.repos.getContent\<close> returns for the path \<open>session\<close>.\<close>

record gh_file =
  name :: jstring
  sha :: jstring

text \<open>
  The regular expression \<open>/creds_\d+_(\d+)\.json/\<close> at the start of a string: each
  \<open>\d+\<close> is followed by a character that is no digit, so it can only match the whole run
  of digits it starts. The result is the text of group 1.
\<close>

definition match_here :: "jstring \<Rightarrow> jstring option" where
  "match_here s =
     (if startsWith s (js ''creds_'') then
        (let r1 = drop 6 s; d1 = takeWhile is_digit r1; r2 = dropWhile is_digit r1
         in if d1 \<noteq> [] \<and> startsWith r2 (js ''_'') then
              (let r3 = drop 1 r2; d2 = takeWhile is_digit r3; r4 = dropWhile is_digit r3
               in if d2 \<noteq> [] \<and> startsWith r4 (js ''.json'') then Some d2 else None)
            else None)
      else None)"

text \<open>\<open>s.match(/creds_\d+_(\d+)\.json/)?.[1]\<close>: group 1 of the leftmost match.\<close>

fun match_group :: "jstring \<Rightarrow> jstring option" where
  "match_group [] = match_here []"
| "match_group (c # cs) =
     (case match_here (c # cs) of
        Some g \<Rightarrow> Some g
      | None \<Rightarrow> match_group cs)"

text \<open>
  \<open>parseInt(a.name.match(...)?.[1] || 0)\<close>: the decimal value of the digits of group 1,
  and \<open>parseInt(0)\<close>, which is 0, when the name has no match. The value is an integer
  here; the number \<open>parseInt\<close> returns is that integer when it is at most \<open>2 ^ 53\<close>.
\<close>

definition timeOf :: "jstring \<Rightarrow> int" where
  "timeOf n = (case match_group n of None \<Rightarrow> 0 | Some ds \<Rightarrow> digits_value ds)"

text \<open>The comparator of the \<open>sort\<close> call, \<open>timeB - timeA\<close>.\<close>

definition byTimeDesc :: "gh_file \<Rightarrow> gh_file \<Rightarrow> int" where
  "byTimeDesc a b = timeOf (name b) - timeOf (name a)"

text \<open>
  \<open>Array.prototype.sort\<close> with a comparator: the sort is stable, so for a consistent
  comparator the result is the one of insertion sort that puts an element before the
  first one it does not compare greater than.
\<close>

fun insert_sorted :: "('a \<Rightarrow> 'a \<Rightarrow> int) \<Rightarrow> 'a \<Rightarrow> 'a list \<Rightarrow> 'a list" where
  "insert_sorted cmp x [] = [x]"
| "insert_sorted cmp x (y # ys) =
     (if cmp x y \<le> 0 then x # y # ys else y # insert_sorted cmp x ys)"

fun js_sort :: "('a \<Rightarrow> 'a \<Rightarrow> int) \<Rightarrow> 'a list \<Rightarrow> 'a list" where
  "js_sort cmp [] = []"
| "js_sort cmp (x # xs) = insert_sorted cmp x (js_sort cmp xs)"

text \<open>\<open>number.replace(/[^0-9]/g, '')\<close>\<close>

definition sanitize :: "jstring \<Rightarrow> jstring" where
  "sanitize number = filter is_digit number"

text \<open>The predicate of the \<open>filter\<close> call, lines 101-102.\<close>

definition isSessionFile :: "jstring \<Rightarrow> gh_file \<Rightarrow> bool" where
  "isSessionFile sanitizedNumber file =
     (startsWith (name file) (js ''creds_'' @ sanitizedNumber @ js ''_'')
      \<and> endsWith (name file) (js ''.json''))"

text \<open>The constant \<open>sessionFiles\<close> of lines 101-107.\<close>

definition sessionFiles :: "jstring \<Rightarrow> gh_file list \<Rightarrow> gh_file list" where
  "sessionFiles number data =
     js_sort byTimeDesc (filter (isSessionFile (sanitize number)) data)"

text \<open>
  The client, when \<open>GITHUB_TOKEN\<close> is set: what \<open>repos.getContent\<close> answers for the path
  \<open>session\<close> (the listing, or the error of a rejected call) and whether
  \<open>repos.deleteFile\<close> resolves or rejects for a file.
\<close>

record octokit_client =
  getContent :: "js_error + gh_file list"
  deleteFile :: "gh_file \<Rightarrow> js_error option"

text \<open>
  The loop of lines 111-120 over the files after the first: the files deleted, in order,
  and the error that ended the loop, if a call rejected.
\<close>

fun deleteLoop :: "(gh_file \<Rightarrow> js_error option) \<Rightarrow> gh_file list \<Rightarrow> gh_file list \<times> js_error option" where
  "deleteLoop del [] = ([], None)"
| "deleteLoop del (f # fs) =
     (case del f of
        Some e \<Rightarrow> ([], Some e)
      | None \<Rightarrow> (case deleteLoop del fs of (deleted, r) \<Rightarrow> (f # deleted, r)))"

text \<open>
  Lines 90-125: the files deleted from the archive, in order, and the error the \<open>catch\<close>
  logs, if any. \<open>octokit\<close> is \<^term>\<open>None\<close> when no token is configured.
\<close>

definition cleanDuplicateFiles ::
  "octokit_client option \<Rightarrow> jstring \<Rightarrow> gh_file list \<times> js_error option" where
  "cleanDuplicateFiles octokit number =
     (case octokit of
        None \<Rightarrow> ([], None)
      | Some client \<Rightarrow>
          (case getContent client of
             Inl e \<Rightarrow> ([], Some e)
           | Inr data \<Rightarrow>
               if length (sessionFiles number data) > 1
               then deleteLoop (deleteFile client) (drop 1 (sessionFiles number data))
               else ([], None)))"

subsection \<open>The naming convention and the cleanup as the specification words them\<close>

text \<open>
  A name \<open>creds_<number>_<timestamp>.json\<close>: the timestamp is what stands between the
  prefix and the extension, a run of digits that is not empty.
\<close>

definition embedded :: "jstring \<Rightarrow> jstring \<Rightarrow> jstring" where
  "embedded number nm =
     take (length nm - 5 - length (js ''creds_'' @ number @ js ''_''))
       (drop (length (js ''creds_'' @ number @ js ''_'')) nm)"

definition matchesNaming :: "jstring \<Rightarrow> jstring \<Rightarrow> bool" where
  "matchesNaming number nm =
     (nm = js ''creds_'' @ number @ js ''_'' @ embedded number nm @ js ''.json''
      \<and> embedded number nm \<noteq> [] \<and> list_all is_digit (embedded number nm))"

definition embeddedTimestamp :: "jstring \<Rightarrow> jstring \<Rightarrow> int" where
  "embeddedTimestamp number nm = digits_value (embedded number nm)"

text \<open>
  "Deletes exactly those files matching \<open>creds_<number>_<timestamp>.json\<close> whose embedded
  timestamp is not the maximum".
\<close>

definition claimed_deleted :: "jstring \<Rightarrow> gh_file list \<Rightarrow> gh_file list" where
  "claimed_deleted number data =
     (let matching = filter (\<lambda>f. matchesNaming number (name f)) data
      in filter (\<lambda>f. \<exists>g \<in> set matching.
                        embeddedTimestamp number (name f) < embeddedTimestamp number (name g))
           matching)"

definition sessionFile :: "jstring \<Rightarrow> gh_file" where
  "sessionFile nm = \<lparr>name = nm, sha = js ''sha-of-'' @ nm\<rparr>"

definition archive :: "gh_file list \<Rightarrow> octokit_client" where
  "archive data = \<lparr>getContent = Inr data, deleteFile = (\<lambda>f. None)\<rparr>"

definition data555 :: "gh_file list" where
  "data555 = [sessionFile (js ''creds_555_100.json''), sessionFile (js ''creds_555_50.json''),
              sessionFile (js ''creds_555_200.json'')]"

definition dataTied :: "gh_file list" where
  "dataTied = [sessionFile (js ''creds_555_100.json''), sessionFile (js ''creds_555_0100.json''),
               sessionFile (js ''creds_555_backup.json'')]"

text \<open>A list of files is newest first when no file has a later timestamp than one before it.\<close>

definition newest_first :: "gh_file list \<Rightarrow> bool" where
  "newest_first fs = sorted_wrt (\<lambda>a b. timeOf (name b) \<le> timeOf (name a)) fs"

section \<open>The active-session map\<close>

text \<open>
  \<open>const activeSockets = new Map()\<close> and \<open>const socketCreationTime = new Map()\<close>
  (lines 45-46). A \<open>Map\<close> is its entries in insertion order: \<open>set\<close> replaces the value
  of the entry of a key the map has and appends an entry otherwise, \<open>delete\<close> removes the
  entry of the key.
\<close>

type_synonym 'v js_map = "(jstring \<times> 'v) list"

definition map_has :: "'v js_map \<Rightarrow> jstring \<Rightarrow> bool" where
  "map_has m k = (k \<in> fst ` set m)"

fun map_set :: "'v js_map \<Rightarrow> jstring \<Rightarrow> 'v \<Rightarrow> 'v js_map" where
  "map_set [] k v = [(k, v)]"
| "map_set ((k', v') # rest) k v =
     (if k' = k then (k, v) # rest else (k', v') # map_set rest k v)"

definition map_delete :: "'v js_map \<Rightarrow> jstring \<Rightarrow> 'v js_map" where
  "map_delete m k = filter (\<lambda>kv. fst kv \<noteq> k) m"

text \<open>The Session of section 3 of the specification; the socket is an opaque handle.\<close>

record session =
  phoneNumber :: jstring
  socketHandle :: nat
  createdAt :: int
  config :: jsobject

record manager_state =
  activeSockets :: "session js_map"
  socketCreationTime :: "int js_map"

definition initial_state :: manager_state where
  "initial_state = \<lparr>activeSockets = [], socketCreationTime = []\<rparr>"

datatype session_error = AuthExpired | AlreadyActive

text \<open>
  Modelled from the spec: the functions that start a session, stop it and handle a
  disconnect are in no line of the source at hand, which ends at line 493 inside
  \<open>setupCommandHandlers\<close>. Section 4.1 of the specification: \<open>startSession\<close> "fails with
  AuthExpired if credential retrieval fails after MAX_RETRIES attempts; fails with
  AlreadyActive if a live session exists and reuse is not requested. On success, registers
  the session in the active map, records creation time"; \<open>stopSession\<close> is "idempotent;
  removes from active map; releases the underlying connection; no-op if absent"; and on an
  unexpected disconnect the manager retries, and "permanent failure is reported to the
  caller/log and the session entry is removed".
\<close>

definition startSession ::
  "manager_state \<Rightarrow> jstring \<Rightarrow> jsobject \<Rightarrow> bool \<Rightarrow> bool \<Rightarrow> nat \<Rightarrow> int
     \<Rightarrow> session_error + manager_state"
where
  "startSession st number cfg reuse credentials socket now =
     (if \<not> credentials then Inl AuthExpired
      else if map_has (activeSockets st) number \<and> \<not> reuse then Inl AlreadyActive
      else Inr \<lparr>activeSockets =
                   map_set (activeSockets st) number
                     \<lparr>phoneNumber = number, socketHandle = socket, createdAt = now,
                      config = cfg\<rparr>,
                 socketCreationTime = map_set (socketCreationTime st) number now\<rparr>)"

definition stopSession :: "manager_state \<Rightarrow> jstring \<Rightarrow> manager_state" where
  "stopSession st number =
     \<lparr>activeSockets = map_delete (activeSockets st) number,
      socketCreationTime = map_delete (socketCreationTime st) number\<rparr>"

text \<open>
  A disconnect of the session of \<open>number\<close>: \<open>reconnected\<close> is the socket of the retry
  that succeeded, \<^term>\<open>None\<close> when the retries are exhausted.
\<close>

definition handleDisconnect :: "manager_state \<Rightarrow> jstring \<Rightarrow> nat option \<Rightarrow> manager_state" where
  "handleDisconnect st number reconnected =
     (case reconnected of
        None \<Rightarrow> stopSession st number
      | Some socket \<Rightarrow>
          (case map_of (activeSockets st) number of
             None \<Rightarrow> st
           | Some s \<Rightarrow>
               st\<lparr>activeSockets :=
                    map_set (activeSockets st) number (s\<lparr>socketHandle := socket\<rparr>)\<rparr>))"

datatype session_op =
    Start jstring jsobject bool bool nat int
  | Stop jstring
  | Disconnect jstring "nat option"

text \<open>One operation on the manager; a start that fails leaves the state as it is.\<close>

fun apply_op :: "manager_state \<Rightarrow> session_op \<Rightarrow> manager_state" where
  "apply_op st (Start number cfg reuse credentials socket now) =
     (case startSession st number cfg reuse credentials socket now of
        Inl e \<Rightarrow> st
      | Inr st' \<Rightarrow> st')"
| "apply_op st (Stop number) = stopSession st number"
| "apply_op st (Disconnect number reconnected) = handleDisconnect st number reconnected"

definition run_ops :: "manager_state \<Rightarrow> session_op list \<Rightarrow> manager_state" where
  "run_ops st ops = foldl apply_op st ops"

text \<open>The active Session entries for a phone number.\<close>

definition sessions_of :: "manager_state \<Rightarrow> jstring \<Rightarrow> (jstring \<times> session) list" where
  "sessions_of st number = filter (\<lambda>kv. fst kv = number) (activeSockets st)"

section \<open>Facts about the builtins\<close>

lemma js_inject [simp]: "js s = js t \<longleftrightarrow> s = t"
proof -
  have "inj (of_char :: char \<Rightarrow> int)" by (rule injI) simp
  then show ?thesis by (simp add: js_def inj_map_eq_map)
qed

lemma js_Nil [simp]: "js [] = []"
  by (simp add: js_def)

lemma js_eq_Nil [simp]: "js s = [] \<longleftrightarrow> s = []"
  by (simp add: js_def)

lemma length_js [simp]: "length (js s) = length s"
  by (simp add: js_def)

lemma parseInt_3: "parseInt (js ''3'') = Some 3"
  by code_simp

lemma parseInt_5: "parseInt (js ''5'') = Some 5"
  by code_simp

lemma parseInt_undefined: "parseInt (js ''undefined'') = None"
  by code_simp

lemma js_append: "js a @ js b = js (a @ b)" "js a @ js b @ rest = js (a @ b) @ rest"
  by (simp_all add: js_def)


section \<open>The retry loops\<close>

declare retryLoop.simps [simp del]

lemma retryLoop_skip:
  "retries \<le> 0 \<Longrightarrow> retryLoop cfg call attempt retries i = (Skipped, [])"
  by (simp add: retryLoop.simps)

lemma retryLoop_ok:
  "0 < retries \<Longrightarrow> attempt i = None \<Longrightarrow>
   retryLoop cfg call attempt retries i = (Done, [Call call])"
  by (simp add: retryLoop.simps)

lemma retryLoop_last:
  "attempt i = Some e \<Longrightarrow>
   retryLoop cfg call attempt 1 i = (Thrown e, [Call call, Warn call 0])"
  by (simp add: retryLoop.simps)

lemma retryLoop_again:
  "1 < retries \<Longrightarrow> attempt i = Some e \<Longrightarrow>
   retryLoop cfg call attempt retries i =
     (fst (retryLoop cfg call attempt (retries - 1) (Suc i)),
      [Call call, Warn call (retries - 1), Delay (retryDelay cfg (retries - 1))]
        @ snd (retryLoop cfg call attempt (retries - 1) (Suc i)))"
  by (subst retryLoop.simps) (simp split: prod.splits)

lemma attempts_simps [simp]:
  "attempts [] = 0"
  "attempts (Call c # tr) = Suc (attempts tr)"
  "attempts (Warn c n # tr) = attempts tr"
  "attempts (Delay d # tr) = attempts tr"
  "attempts (LogReacted s # tr) = attempts tr"
  "attempts (LogError e # tr) = attempts tr"
  "attempts (tr @ tr') = attempts tr + attempts tr'"
  by (simp_all add: attempts_def)

lemma retryLoop_all_fail:
  "nat m = Suc n \<Longrightarrow> \<forall>j < Suc n. attempt (i + j) \<noteq> None \<Longrightarrow>
   (\<exists>e. attempt (i + n) = Some e \<and> fst (retryLoop cfg call attempt m i) = Thrown e)
   \<and> attempts (snd (retryLoop cfg call attempt m i)) = Suc n"
proof (induction n arbitrary: m i)
  case 0
  then have m: "m = 1" by linarith
  from 0 obtain e where "attempt i = Some e" by fastforce
  then show ?case by (simp add: m retryLoop_last)
next
  case (Suc n)
  then have m: "1 < m" "nat (m - 1) = Suc n" by linarith+
  from Suc.prems(2) obtain e where e: "attempt i = Some e" by fastforce
  have rest: "\<forall>j < Suc n. attempt (Suc i + j) \<noteq> None"
    using Suc.prems(2) by (metis Suc_less_eq add_Suc_shift)
  from Suc.IH [OF m(2) rest] show ?case
    using m(1) e by (simp add: retryLoop_again [where attempt = attempt and i = i and e = e])
qed

lemma retryLoop_fail_then_ok:
  "nat m = Suc n \<Longrightarrow> \<forall>j < n. attempt (i + j) \<noteq> None \<Longrightarrow> attempt (i + n) = None \<Longrightarrow>
   fst (retryLoop cfg call attempt m i) = Done
   \<and> attempts (snd (retryLoop cfg call attempt m i)) = Suc n"
proof (induction n arbitrary: m i)
  case 0
  then have "0 < m" by linarith
  with 0 show ?case by (simp add: retryLoop_ok)
next
  case (Suc n)
  then have m: "1 < m" "nat (m - 1) = Suc n" by linarith+
  from Suc.prems(2) obtain e where e: "attempt i = Some e" by fastforce
  have rest: "\<forall>j < n. attempt (Suc i + j) \<noteq> None"
    using Suc.prems(2) by (metis Suc_less_eq add_Suc_shift)
  have last: "attempt (Suc i + n) = None" using Suc.prems(3) by simp
  from Suc.IH [OF m(2) rest last] show ?case
    using m(1) e by (simp add: retryLoop_again [where attempt = attempt and i = i and e = e])
qed

lemma calls_append [simp]: "calls P (tr @ tr') = calls P tr + calls P tr'"
  by (induction P tr rule: calls.induct) simp_all

lemma delays_append [simp]: "delays (tr @ tr') = delays tr @ delays tr'"
  by (induction tr rule: delays.induct) simp_all

lemma retryLoop_cases [case_names skip ok last again]:
  fixes retries :: int and attempt :: "nat \<Rightarrow> js_error option" and i :: nat
  assumes "retries \<le> 0 \<Longrightarrow> P"
    and "0 < retries \<Longrightarrow> attempt i = None \<Longrightarrow> P"
    and "\<And>e. retries = 1 \<Longrightarrow> attempt i = Some e \<Longrightarrow> P"
    and "\<And>e. 1 < retries \<Longrightarrow> attempt i = Some e \<Longrightarrow> P"
  shows P
proof (cases "attempt i")
  case None
  with assms(1,2) show P by (cases "retries \<le> 0") auto
next
  case (Some e)
  consider "retries \<le> 0" | "retries = 1" | "1 < retries" by linarith
  then show P using assms(1,3,4) Some by cases auto
qed

lemma retryLoop_calls:
  "calls P (snd (retryLoop cfg call attempt retries i))
     = (if P call then attempts (snd (retryLoop cfg call attempt retries i)) else 0)"
proof (induction "nat retries" arbitrary: retries i)
  case 0
  then show ?case by (simp add: retryLoop_skip)
next
  case (Suc n)
  show ?case
  proof (cases rule: retryLoop_cases [where retries = retries and attempt = attempt and i = i])
    case skip
    then show ?thesis by (simp add: retryLoop_skip)
  next
    case ok
    then show ?thesis by (simp add: retryLoop_ok)
  next
    case (last e)
    then show ?thesis by (simp add: retryLoop_last)
  next
    case (again e)
    from Suc(2) have "n = nat (retries - 1)" by linarith
    from Suc(1) [OF this, of "Suc i"] again show ?thesis
      by (simp add: retryLoop_again [where attempt = attempt and i = i and e = e])
  qed
qed

lemma retryLoop_attempts_le:
  "attempts (snd (retryLoop cfg call attempt retries i)) \<le> nat retries"
proof (induction "nat retries" arbitrary: retries i)
  case 0
  then show ?case by (simp add: retryLoop_skip)
next
  case (Suc n)
  show ?case
  proof (cases rule: retryLoop_cases [where retries = retries and attempt = attempt and i = i])
    case skip
    then show ?thesis by (simp add: retryLoop_skip)
  next
    case ok
    then show ?thesis using Suc(2) by (simp add: retryLoop_ok)
  next
    case (last e)
    then show ?thesis by (simp add: retryLoop_last)
  next
    case (again e)
    from Suc(2) have "n = nat (retries - 1)" by linarith
    from Suc(1) [OF this, of "Suc i"] again Suc(2) show ?thesis
      by (simp add: retryLoop_again [where attempt = attempt and i = i and e = e])
  qed
qed

lemma retryLoop_attempts_pos:
  "0 < retries \<Longrightarrow> 0 < attempts (snd (retryLoop cfg call attempt retries i))"
  by (cases rule: retryLoop_cases [where retries = retries and attempt = attempt and i = i])
     (simp_all add: retryLoop_ok retryLoop_last
        retryLoop_again [where attempt = attempt and i = i])

lemma retryLoop_delays:
  "delays (snd (retryLoop cfg call attempt retries i))
     = map (\<lambda>j. retryDelay cfg (retries - int j))
         [1 ..< attempts (snd (retryLoop cfg call attempt retries i))]"
proof (induction "nat retries" arbitrary: retries i)
  case 0
  then show ?case by (simp add: retryLoop_skip)
next
  case (Suc n)
  show ?case
  proof (cases rule: retryLoop_cases [where retries = retries and attempt = attempt and i = i])
    case skip
    then show ?thesis by (simp add: retryLoop_skip)
  next
    case ok
    then show ?thesis by (simp add: retryLoop_ok)
  next
    case (last e)
    then show ?thesis by (simp add: retryLoop_last)
  next
    case (again e)
    let ?rest = "snd (retryLoop cfg call attempt (retries - 1) (Suc i))"
    from Suc(2) have n: "n = nat (retries - 1)" by linarith
    have pos: "0 < attempts ?rest" using again by (simp add: retryLoop_attempts_pos)
    have "[1 ..< Suc (attempts ?rest)] = 1 # map Suc [1 ..< attempts ?rest]"
      using pos by (simp add: upt_conv_Cons map_Suc_upt del: upt_Suc)
    then have "map (\<lambda>j. retryDelay cfg (retries - int j)) [1 ..< Suc (attempts ?rest)]
       = retryDelay cfg (retries - 1)
           # map (\<lambda>j. retryDelay cfg (retries - 1 - int j)) [1 ..< attempts ?rest]"
      by (simp add: comp_def algebra_simps)
    with Suc(1) [OF n, of "Suc i"] again show ?thesis
      by (simp add: retryLoop_again [where attempt = attempt and i = i and e = e])
  qed
qed

lemma retryLoop_thrown:
  "fst (retryLoop cfg call attempt retries i) = Thrown e \<Longrightarrow>
   attempts (snd (retryLoop cfg call attempt retries i)) = nat retries"
proof (induction "nat retries" arbitrary: retries i)
  case 0
  then show ?case by (simp add: retryLoop_skip)
next
  case (Suc n)
  show ?case
  proof (cases rule: retryLoop_cases [where retries = retries and attempt = attempt and i = i])
    case skip
    then show ?thesis using Suc by (simp add: retryLoop_skip)
  next
    case ok
    then show ?thesis using Suc by (simp add: retryLoop_ok)
  next
    case (last e)
    then show ?thesis by (simp add: retryLoop_last)
  next
    case (again e')
    from Suc(2) have "n = nat (retries - 1)" by linarith
    from Suc(1) [OF this, of "Suc i"] again Suc(2,3) show ?thesis
      by (simp add: retryLoop_again [where attempt = attempt and i = i and e = e'])
  qed
qed


lemma maxRetries_defaultConfig: "maxRetries defaultConfig = 3"
  by (simp add: maxRetries_def defaultConfig_def get_prop_def parseInt_val_def parseInt_3)

lemma maxRetries_configured:
  assumes "parseInt_val (get_prop cfg (js ''MAX_RETRIES'')) = Some m \<and> 0 < m \<and> m \<le> 2 ^ 53
           \<or> (parseInt_val (get_prop cfg (js ''MAX_RETRIES'')) = None
               \<or> parseInt_val (get_prop cfg (js ''MAX_RETRIES'')) = Some 0) \<and> m = 3"
  shows "maxRetries cfg = m" and "0 < m"
  using assms by (auto simp add: maxRetries_def)

lemma retryLoop_configured:
  assumes "maxRetries cfg = m" and "0 < m"
  shows "((\<forall>j < nat m - 1. attempt j \<noteq> None) \<and> attempt (nat m - 1) = None
            \<longrightarrow> fst (retryLoop cfg call attempt (maxRetries cfg) 0) = Done
                \<and> attempts (snd (retryLoop cfg call attempt (maxRetries cfg) 0)) = nat m)
       \<and> ((\<forall>j < nat m. attempt j \<noteq> None)
            \<longrightarrow> (\<exists>e. attempt (nat m - 1) = Some e
                     \<and> fst (retryLoop cfg call attempt (maxRetries cfg) 0) = Thrown e)
                \<and> attempts (snd (retryLoop cfg call attempt (maxRetries cfg) 0)) = nat m)"
proof -
  obtain n where n: "nat m = Suc n"
    using assms(2) by (metis Suc_pred zero_less_nat_eq)
  show ?thesis
    using retryLoop_fail_then_ok [OF n, of attempt 0 cfg call]
          retryLoop_all_fail [OF n, of attempt 0 cfg call]
    by (simp add: n assms(1))
qed

lemma viewStep_configured:
  assumes "maxRetries cfg = m" and "0 < m" and "is_true cfg (js ''AUTO_VIEW_STATUS'')"
  shows "((\<forall>j < nat m - 1. readOutcome env j \<noteq> None) \<and> readOutcome env (nat m - 1) = None
            \<longrightarrow> fst (viewStep cfg k env) = Done
                \<and> calls is_read (snd (viewStep cfg k env)) = nat m)
       \<and> ((\<forall>j < nat m. readOutcome env j \<noteq> None)
            \<longrightarrow> (\<exists>e. readOutcome env (nat m - 1) = Some e
                     \<and> fst (viewStep cfg k env) = Thrown e)
                \<and> calls is_read (snd (viewStep cfg k env)) = nat m)"
  using retryLoop_configured [OF assms(1,2), of "readOutcome env" "ReadMessages k"] assms(3)
  by (simp add: viewStep_def retryLoop_calls)

lemma likeStep_configured:
  assumes "maxRetries cfg = m" and "0 < m" and "is_true cfg (js ''AUTO_LIKE_STATUS'')"
  shows "((\<forall>j < nat m - 1. reactOutcome env j \<noteq> None) \<and> reactOutcome env (nat m - 1) = None
            \<longrightarrow> fst (likeStep cfg k env) = Done
                \<and> calls is_reaction (snd (likeStep cfg k env)) = nat m)
       \<and> ((\<forall>j < nat m. reactOutcome env j \<noteq> None)
            \<longrightarrow> (\<exists>e. reactOutcome env (nat m - 1) = Some e
                     \<and> fst (likeStep cfg k env) = Thrown e)
                \<and> calls is_reaction (snd (likeStep cfg k env)) = nat m)"
proof -
  let ?call = "SendReaction (remoteJid k) (randomEmoji cfg (random env)) k"
  let ?loop = "retryLoop cfg ?call (reactOutcome env) (maxRetries cfg) 0"
  have fst_eq: "fst (likeStep cfg k env) = fst ?loop"
    using assms(3) by (cases ?loop; cases "fst ?loop") (simp_all add: likeStep_def)
  have calls_eq: "calls is_reaction (snd (likeStep cfg k env)) = calls is_reaction (snd ?loop)"
    using assms(3) by (cases ?loop; cases "fst ?loop") (simp_all add: likeStep_def)
  show ?thesis
    using retryLoop_configured [OF assms(1,2), of "reactOutcome env" ?call]
    by (simp add: fst_eq calls_eq retryLoop_calls)
qed

text \<open>
  Claim C5. Both retry loops start with \<open>retries = parseInt(userConfig.MAX_RETRIES) || 3\<close>.
  Let \<open>m\<close> be the number of attempts the configuration asks for: the integer
  \<open>parseInt\<close> reads from \<open>MAX_RETRIES\<close> when that is positive (and at most \<open>2 ^ 53\<close>, so
  that the number \<open>parseInt\<close> returns is that integer), and \<open>3\<close> when \<open>parseInt\<close> gives
  \<open>NaN\<close> or \<open>0\<close>. For the loop that marks the status as read (when \<open>AUTO_VIEW_STATUS\<close> is
  on) and for the loop that sends the reaction (when \<open>AUTO_LIKE_STATUS\<close> is on): if the
  call rejects \<open>m - 1\<close> times and then resolves, the loop ends by \<open>break\<close> after exactly
  \<open>m\<close> calls; if the call rejects \<open>m\<close> times, the loop throws the error of the last call
  to the code around it, after exactly \<open>m\<close> calls.
\<close>

theorem C5_retry_last_attempt:
  assumes "parseInt_val (get_prop userConfig (js ''MAX_RETRIES'')) = Some m \<and> 0 < m \<and> m \<le> 2 ^ 53
           \<or> (parseInt_val (get_prop userConfig (js ''MAX_RETRIES'')) = None
               \<or> parseInt_val (get_prop userConfig (js ''MAX_RETRIES'')) = Some 0) \<and> m = 3"
  shows "(is_true userConfig (js ''AUTO_VIEW_STATUS'') \<longrightarrow>
            ((\<forall>j < nat m - 1. readOutcome env j \<noteq> None) \<and> readOutcome env (nat m - 1) = None
               \<longrightarrow> fst (viewStep userConfig k env) = Done
                   \<and> calls is_read (snd (viewStep userConfig k env)) = nat m)
          \<and> ((\<forall>j < nat m. readOutcome env j \<noteq> None)
               \<longrightarrow> (\<exists>e. readOutcome env (nat m - 1) = Some e
                        \<and> fst (viewStep userConfig k env) = Thrown e)
                   \<and> calls is_read (snd (viewStep userConfig k env)) = nat m))
       \<and> (is_true userConfig (js ''AUTO_LIKE_STATUS'') \<longrightarrow>
            ((\<forall>j < nat m - 1. reactOutcome env j \<noteq> None) \<and> reactOutcome env (nat m - 1) = None
               \<longrightarrow> fst (likeStep userConfig k env) = Done
                   \<and> calls is_reaction (snd (likeStep userConfig k env)) = nat m)
          \<and> ((\<forall>j < nat m. reactOutcome env j \<noteq> None)
               \<longrightarrow> (\<exists>e. reactOutcome env (nat m - 1) = Some e
                        \<and> fst (likeStep userConfig k env) = Thrown e)
                   \<and> calls is_reaction (snd (likeStep userConfig k env)) = nat m))"
  using viewStep_configured [OF maxRetries_configured [OF assms], of env k]
        likeStep_configured [OF maxRetries_configured [OF assms], of env k]
  by blast

lemma parseInt_val_five:
  "parseInt_val (get_prop configFiveRetries (js ''MAX_RETRIES'')) = Some 5"
  by (simp add: configFiveRetries_def get_prop_def parseInt_val_def parseInt_5)

lemma parseInt_val_unset:
  "parseInt_val (get_prop configWithoutMaxRetries (js ''MAX_RETRIES'')) = None"
  by (simp add: configWithoutMaxRetries_def get_prop_def parseInt_val_def parseInt_undefined)

theorem C5_retry_last_attempt_witness:
  "parseInt_val (get_prop configFiveRetries (js ''MAX_RETRIES'')) = Some 5
   \<and> is_true configFiveRetries (js ''AUTO_VIEW_STATUS'')
   \<and> is_true configFiveRetries (js ''AUTO_LIKE_STATUS'')
   \<and> readOutcome (rejecting 4) 3 = Some (Rejected ''timed out'')
   \<and> readOutcome (rejecting 4) 4 = None
   \<and> fst (viewStep configFiveRetries statusKey (rejecting 4)) = Done
   \<and> calls is_read (snd (viewStep configFiveRetries statusKey (rejecting 4))) = 5
   \<and> fst (likeStep configFiveRetries statusKey (rejecting 4)) = Done
   \<and> calls is_reaction (snd (likeStep configFiveRetries statusKey (rejecting 4))) = 5
   \<and> readOutcome (rejecting 5) 4 = Some (Rejected ''timed out'')
   \<and> fst (viewStep configFiveRetries statusKey (rejecting 5)) = Thrown (Rejected ''timed out'')
   \<and> calls is_read (snd (viewStep configFiveRetries statusKey (rejecting 5))) = 5
   \<and> fst (likeStep configFiveRetries statusKey (rejecting 5)) = Thrown (Rejected ''not sent'')
   \<and> calls is_reaction (snd (likeStep configFiveRetries statusKey (rejecting 5))) = 5
   \<and> parseInt_val (get_prop configWithoutMaxRetries (js ''MAX_RETRIES'')) = None
   \<and> fst (viewStep configWithoutMaxRetries statusKey (rejecting 2)) = Done
   \<and> calls is_read (snd (viewStep configWithoutMaxRetries statusKey (rejecting 2))) = 3
   \<and> fst (viewStep configWithoutMaxRetries statusKey (rejecting 3)) = Thrown (Rejected ''timed out'')
   \<and> calls is_read (snd (viewStep configWithoutMaxRetries statusKey (rejecting 3))) = 3"
proof -
  have five: "parseInt_val (get_prop configFiveRetries (js ''MAX_RETRIES'')) = Some 5
                \<and> (0 :: int) < 5 \<and> (5 :: int) \<le> 2 ^ 53
              \<or> (parseInt_val (get_prop configFiveRetries (js ''MAX_RETRIES'')) = None
                  \<or> parseInt_val (get_prop configFiveRetries (js ''MAX_RETRIES'')) = Some 0)
                \<and> (5 :: int) = 3"
    by (simp add: parseInt_val_five)
  have unset: "parseInt_val (get_prop configWithoutMaxRetries (js ''MAX_RETRIES'')) = Some 3
                \<and> (0 :: int) < 3 \<and> (3 :: int) \<le> 2 ^ 53
              \<or> (parseInt_val (get_prop configWithoutMaxRetries (js ''MAX_RETRIES'')) = None
                  \<or> parseInt_val (get_prop configWithoutMaxRetries (js ''MAX_RETRIES'')) = Some 0)
                \<and> (3 :: int) = 3"
    by (simp add: parseInt_val_unset)
  have flags: "is_true configFiveRetries (js ''AUTO_VIEW_STATUS'')"
    "is_true configFiveRetries (js ''AUTO_LIKE_STATUS'')"
    "is_true configWithoutMaxRetries (js ''AUTO_VIEW_STATUS'')"
    by (simp_all add: is_true_def get_prop_def configFiveRetries_def
          configWithoutMaxRetries_def)
  have outcomes: "readOutcome (rejecting n) = (\<lambda>j. if j < n then Some (Rejected ''timed out'') else None)"
    "reactOutcome (rejecting n) = (\<lambda>j. if j < n then Some (Rejected ''not sent'') else None)"
    for n
    by (simp_all add: rejecting_def)
  show ?thesis
    using C5_retry_last_attempt [OF five, of "rejecting 4" statusKey]
          C5_retry_last_attempt [OF five, of "rejecting 5" statusKey]
          C5_retry_last_attempt [OF unset, of "rejecting 2" statusKey]
          C5_retry_last_attempt [OF unset, of "rejecting 3" statusKey]
    by (simp add: flags outcomes parseInt_val_five parseInt_val_unset)
qed

section \<open>The status listener\<close>

lemma recordingStep_facts:
  assumes "recordingStep cfg k env = (r, tr)"
  shows "calls is_presence tr \<le> 1" "calls is_read tr = 0" "calls is_reaction tr = 0"
    "delays tr = []"
    "calls is_presence tr = 1 \<Longrightarrow> presenceOutcome env \<noteq> None \<Longrightarrow> \<exists>e. r = Thrown e"
  using assms by (auto simp: recordingStep_def split: if_splits option.splits)

lemma viewStep_cases:
  assumes "viewStep cfg k env = (r, tr)"
  shows "(r = Skipped \<and> tr = []) \<or>
         retryLoop cfg (ReadMessages k) (readOutcome env) (maxRetries cfg) 0 = (r, tr)"
  using assms by (simp add: viewStep_def split: if_splits)

lemma viewStep_facts:
  assumes "viewStep cfg k env = (r, tr)"
  shows "calls is_presence tr = 0" "calls is_read tr \<le> nat (maxRetries cfg)"
    "calls is_reaction tr = 0"
    "delays tr = map (\<lambda>j. retryDelay cfg (maxRetries cfg - int j)) [1 ..< calls is_read tr]"
proof -
  let ?loop = "retryLoop cfg (ReadMessages k) (readOutcome env) (maxRetries cfg) 0"
  have tr: "tr = [] \<or> tr = snd ?loop" using viewStep_cases [OF assms] by auto
  show "calls is_presence tr = 0" using tr by (auto simp: retryLoop_calls)
  show "calls is_reaction tr = 0" using tr by (auto simp: retryLoop_calls)
  show "calls is_read tr \<le> nat (maxRetries cfg)"
    using tr retryLoop_attempts_le [of cfg "ReadMessages k" "readOutcome env" "maxRetries cfg" 0]
    by (auto simp: retryLoop_calls)
  show "delays tr = map (\<lambda>j. retryDelay cfg (maxRetries cfg - int j)) [1 ..< calls is_read tr]"
    using tr retryLoop_delays [of cfg "ReadMessages k" "readOutcome env" "maxRetries cfg" 0]
    by (auto simp: retryLoop_calls)
qed

lemma viewStep_exhausted:
  assumes "viewStep cfg k env = (r, tr)" and pos: "0 < calls is_read tr"
    and all: "\<forall>j < nat (maxRetries cfg). readOutcome env j \<noteq> None"
  shows "\<exists>e. r = Thrown e"
proof -
  let ?loop = "retryLoop cfg (ReadMessages k) (readOutcome env) (maxRetries cfg) 0"
  from viewStep_cases [OF assms(1)] pos have loop: "?loop = (r, tr)" by auto
  have "\<not> maxRetries cfg \<le> 0"
  proof
    assume "maxRetries cfg \<le> 0"
    then have "?loop = (Skipped, [])" by (rule retryLoop_skip)
    with loop pos show False by simp
  qed
  then obtain n where n: "nat (maxRetries cfg) = Suc n"
    by (metis Suc_pred zero_less_nat_eq not_le)
  have "\<forall>j < Suc n. readOutcome env (0 + j) \<noteq> None" using all n by simp
  from retryLoop_all_fail [OF n this, of cfg "ReadMessages k"]
  obtain e where "fst ?loop = Thrown e" by blast
  with loop show ?thesis by simp
qed


lemma likeStep_facts:
  assumes "likeStep cfg k env = (r, tr)"
  shows "calls is_presence tr = 0" "calls is_read tr = 0"
    "calls is_reaction tr \<le> nat (maxRetries cfg)"
    "delays tr = map (\<lambda>j. retryDelay cfg (maxRetries cfg - int j)) [1 ..< calls is_reaction tr]"
proof -
  let ?call = "SendReaction (remoteJid k) (randomEmoji cfg (random env)) k"
  let ?loop = "retryLoop cfg ?call (reactOutcome env) (maxRetries cfg) 0"
  have tr: "tr = [] \<or> tr = snd ?loop \<or> tr = snd ?loop @ [LogReacted (randomEmoji cfg (random env))]"
    using assms by (auto simp: likeStep_def split: if_splits prod.splits loop_result.splits)
  show "calls is_presence tr = 0" using tr by (auto simp: retryLoop_calls)
  show "calls is_read tr = 0" using tr by (auto simp: retryLoop_calls)
  show "calls is_reaction tr \<le> nat (maxRetries cfg)"
    using tr retryLoop_attempts_le [of cfg ?call "reactOutcome env" "maxRetries cfg" 0]
    by (auto simp: retryLoop_calls)
  show "delays tr = map (\<lambda>j. retryDelay cfg (maxRetries cfg - int j)) [1 ..< calls is_reaction tr]"
    using tr retryLoop_delays [of cfg ?call "reactOutcome env" "maxRetries cfg" 0]
    by (auto simp: retryLoop_calls)
qed

lemma retryDelay_default:
  "parseInt_val (get_prop cfg (js ''MAX_RETRIES'')) = None \<or> parseInt_val (get_prop cfg (js ''MAX_RETRIES'')) = Some 0
   \<Longrightarrow> retryDelay cfg (maxRetries cfg - int j) = 1000 * int j"
  by (auto simp: retryDelay_def maxRetries_def)

lemma statusActions_shape:
  assumes "recordingStep cfg k env = (r1, tr1)" "viewStep cfg k env = (r2, tr2)"
    "likeStep cfg k env = (r3, tr3)"
  shows "snd (statusActions cfg lsi k env) =
     (case r1 of Thrown e \<Rightarrow> tr1 @ [LogError e]
      | _ \<Rightarrow> (case r2 of Thrown e \<Rightarrow> tr1 @ tr2 @ [LogError e]
              | _ \<Rightarrow> (case r3 of Thrown e \<Rightarrow> tr1 @ tr2 @ tr3 @ [LogError e]
                      | _ \<Rightarrow> tr1 @ tr2 @ tr3)))"
  by (simp add: statusActions_def assms split: loop_result.splits)

lemma statusActions_facts:
  "calls is_presence (snd (statusActions cfg lsi k env)) \<le> 1"
  "calls is_read (snd (statusActions cfg lsi k env)) \<le> nat (maxRetries cfg)"
  "calls is_reaction (snd (statusActions cfg lsi k env)) \<le> nat (maxRetries cfg)"
  "calls is_presence (snd (statusActions cfg lsi k env)) = 1 \<Longrightarrow> presenceOutcome env \<noteq> None \<Longrightarrow>
     calls is_read (snd (statusActions cfg lsi k env)) = 0
     \<and> calls is_reaction (snd (statusActions cfg lsi k env)) = 0"
  "0 < calls is_read (snd (statusActions cfg lsi k env)) \<Longrightarrow>
     \<forall>j < nat (maxRetries cfg). readOutcome env j \<noteq> None \<Longrightarrow>
     calls is_reaction (snd (statusActions cfg lsi k env)) = 0"
  "delays (snd (statusActions cfg lsi k env))
     = map (\<lambda>j. retryDelay cfg (maxRetries cfg - int j))
         [1 ..< calls is_read (snd (statusActions cfg lsi k env))]
       @ map (\<lambda>j. retryDelay cfg (maxRetries cfg - int j))
         [1 ..< calls is_reaction (snd (statusActions cfg lsi k env))]"
proof -
  obtain r1 tr1 where s1: "recordingStep cfg k env = (r1, tr1)" by (cases "recordingStep cfg k env")
  obtain r2 tr2 where s2: "viewStep cfg k env = (r2, tr2)" by (cases "viewStep cfg k env")
  obtain r3 tr3 where s3: "likeStep cfg k env = (r3, tr3)" by (cases "likeStep cfg k env")
  note f1 = recordingStep_facts [OF s1] and f2 = viewStep_facts [OF s2] and f3 = likeStep_facts [OF s3]
  note sh = statusActions_shape [OF s1 s2 s3, of lsi]
  have z: "calls is_read tr1 = 0" "calls is_reaction tr1 = 0" "calls is_reaction tr2 = 0"
    "calls is_read tr3 = 0" "calls is_presence tr2 = 0" "calls is_presence tr3 = 0"
    "delays tr1 = []"
    using f1 f2 f3 by simp_all
  show "calls is_presence (snd (statusActions cfg lsi k env)) \<le> 1"
    using f1(1) by (simp add: sh z split: loop_result.splits)
  show "calls is_read (snd (statusActions cfg lsi k env)) \<le> nat (maxRetries cfg)"
    using f2(2) by (simp add: sh z split: loop_result.splits)
  show "calls is_reaction (snd (statusActions cfg lsi k env)) \<le> nat (maxRetries cfg)"
    using f3(3) by (simp add: sh z split: loop_result.splits)
  show "calls is_read (snd (statusActions cfg lsi k env)) = 0
     \<and> calls is_reaction (snd (statusActions cfg lsi k env)) = 0"
    if a: "calls is_presence (snd (statusActions cfg lsi k env)) = 1"
      and b: "presenceOutcome env \<noteq> None"
  proof -
    have "calls is_presence tr1 = 1" using a by (simp add: sh z split: loop_result.splits)
    from f1(5) [OF this b] obtain e where "r1 = Thrown e" by blast
    then show ?thesis by (simp add: sh z)
  qed
  show "calls is_reaction (snd (statusActions cfg lsi k env)) = 0"
    if a: "0 < calls is_read (snd (statusActions cfg lsi k env))"
      and b: "\<forall>j < nat (maxRetries cfg). readOutcome env j \<noteq> None"
  proof -
    have "0 < calls is_read tr2" using a by (simp add: sh z split: loop_result.splits)
    from viewStep_exhausted [OF s2 this b] obtain e where "r2 = Thrown e" by blast
    then show ?thesis by (simp add: sh z split: loop_result.splits)
  qed
  show "delays (snd (statusActions cfg lsi k env))
     = map (\<lambda>j. retryDelay cfg (maxRetries cfg - int j))
         [1 ..< calls is_read (snd (statusActions cfg lsi k env))]
       @ map (\<lambda>j. retryDelay cfg (maxRetries cfg - int j))
         [1 ..< calls is_reaction (snd (statusActions cfg lsi k env))]"
    using f2(4) f3(4) by (simp add: sh z split: loop_result.splits)
qed


lemmas status_eval =
  statusEffects_def statusHandler_def statusActions_def recordingStep_def viewStep_def
  likeStep_def is_true_def get_prop_def maxRetries_def retryLoop.simps retryDelay_def
  randomEmoji_def defaultConfig_def STATUS_INTERACTION_COOLDOWN_def statusMsg_def
  allResolve_def configWithoutMaxRetries_def configLikeOff_def fiveStatusEvents_def
  parseInt_val_def parseInt_3 parseInt_undefined claimed_retryDelay_def


lemma statusEffects_cases:
  "statusEffects cfg lsi msg env = []
   \<or> (\<exists>k. statusEffects cfg lsi msg env = snd (statusActions cfg lsi k env))"
  by (auto simp: statusEffects_def statusHandler_def split: option.splits)

text \<open>
  Claim C4, amended. In the effects of the listener on any status event:
  \<open>sendPresenceUpdate\<close> is called at most once (it has no retry loop); \<open>readMessages\<close>
  and the reaction are each called at most \<open>maxRetries\<close> times; the steps run in order and
  are not independent: a rejected presence update leaves both other actions uncalled, and a
  \<open>readMessages\<close> that rejects at every call leaves the reaction uncalled; and when
  \<open>MAX_RETRIES\<close> parses to \<open>NaN\<close> or \<open>0\<close>, the delay after the \<open>j\<close>-th rejected call
  of a loop is \<open>1000 * j\<close> ms, which is \<open>1000 * (3 - retries)\<close> for the attempts that remain.
\<close>

theorem C4_status_actions_retry:
  "calls is_presence (statusEffects userConfig lsi msg env) \<le> 1
   \<and> calls is_read (statusEffects userConfig lsi msg env) \<le> nat (maxRetries userConfig)
   \<and> calls is_reaction (statusEffects userConfig lsi msg env) \<le> nat (maxRetries userConfig)
   \<and> (calls is_presence (statusEffects userConfig lsi msg env) = 1
        \<and> presenceOutcome env \<noteq> None
      \<longrightarrow> calls is_read (statusEffects userConfig lsi msg env) = 0
          \<and> calls is_reaction (statusEffects userConfig lsi msg env) = 0)
   \<and> (0 < calls is_read (statusEffects userConfig lsi msg env)
        \<and> (\<forall>j < nat (maxRetries userConfig). readOutcome env j \<noteq> None)
      \<longrightarrow> calls is_reaction (statusEffects userConfig lsi msg env) = 0)
   \<and> (parseInt_val (get_prop userConfig (js ''MAX_RETRIES'')) = None
        \<or> parseInt_val (get_prop userConfig (js ''MAX_RETRIES'')) = Some 0
      \<longrightarrow> delays (statusEffects userConfig lsi msg env)
            = map (\<lambda>j. 1000 * int j) [1 ..< calls is_read (statusEffects userConfig lsi msg env)]
              @ map (\<lambda>j. 1000 * int j)
                  [1 ..< calls is_reaction (statusEffects userConfig lsi msg env)])"
proof (rule disjE [OF statusEffects_cases [of userConfig lsi msg env]])
  assume "statusEffects userConfig lsi msg env = []"
  then show ?thesis by simp
next
  assume "\<exists>k. statusEffects userConfig lsi msg env = snd (statusActions userConfig lsi k env)"
  then obtain k where E: "statusEffects userConfig lsi msg env = snd (statusActions userConfig lsi k env)"
    by blast
  note f = statusActions_facts [of userConfig lsi k env]
  have d: "parseInt_val (get_prop userConfig (js ''MAX_RETRIES'')) = None
        \<or> parseInt_val (get_prop userConfig (js ''MAX_RETRIES'')) = Some 0
      \<Longrightarrow> delays (snd (statusActions userConfig lsi k env))
            = map (\<lambda>j. 1000 * int j) [1 ..< calls is_read (snd (statusActions userConfig lsi k env))]
              @ map (\<lambda>j. 1000 * int j)
                  [1 ..< calls is_reaction (snd (statusActions userConfig lsi k env))]"
    using f(6) by (simp add: retryDelay_default)
  show ?thesis
    unfolding E using f(1) f(2) f(3) f(4) f(5) d by blast
qed

theorem C4_status_actions_retry_witness:
  "calls is_presence (statusEffects defaultConfig 0 statusMsg
       ((allResolve 1700000000000)\<lparr>presenceOutcome := Some (Rejected ''closed'')\<rparr>)) = 1
   \<and> presenceOutcome ((allResolve 1700000000000)\<lparr>presenceOutcome := Some (Rejected ''closed'')\<rparr>)
       \<noteq> None
   \<and> calls is_read (statusEffects defaultConfig 0 statusMsg
       ((allResolve 1700000000000)\<lparr>presenceOutcome := Some (Rejected ''closed'')\<rparr>)) = 0
   \<and> calls is_reaction (statusEffects defaultConfig 0 statusMsg
       ((allResolve 1700000000000)\<lparr>presenceOutcome := Some (Rejected ''closed'')\<rparr>)) = 0
   \<and> maxRetries configWithoutMaxRetries = 3
   \<and> parseInt_val (get_prop configWithoutMaxRetries (js ''MAX_RETRIES'')) = None
   \<and> calls is_read (statusEffects configWithoutMaxRetries 0 statusMsg
       ((allResolve 1700000000000)\<lparr>readOutcome := (\<lambda>j. Some (Rejected ''timed out''))\<rparr>)) = 3
   \<and> calls is_reaction (statusEffects configWithoutMaxRetries 0 statusMsg
       ((allResolve 1700000000000)\<lparr>readOutcome := (\<lambda>j. Some (Rejected ''timed out''))\<rparr>)) = 0
   \<and> delays (statusEffects configWithoutMaxRetries 0 statusMsg
       ((allResolve 1700000000000)\<lparr>readOutcome := (\<lambda>j. Some (Rejected ''timed out''))\<rparr>))
       = [1000, 2000]"
  using C4_status_actions_retry [of defaultConfig 0 statusMsg
          "(allResolve 1700000000000)\<lparr>presenceOutcome := Some (Rejected ''closed'')\<rparr>"]
        C4_status_actions_retry [of configWithoutMaxRetries 0 statusMsg
          "(allResolve 1700000000000)\<lparr>readOutcome := (\<lambda>j. Some (Rejected ''timed out''))\<rparr>"]
  by (simp add: status_eval)

text \<open>
  Claim C4 as stated fails. With the default configuration (\<open>MAX_RETRIES\<close> 3) and a
  presence update that rejects, the presence update is called once and never again, and
  neither \<open>readMessages\<close> nor the reaction is called. With \<open>MAX_RETRIES\<close> absent and
  \<open>readMessages\<close> rejecting twice, the two delays are 1000 and 2000 ms, where "1000 ms
  times attempts remaining" gives 2000 and 1000.
\<close>

theorem C4_counterexample:
  "maxRetries defaultConfig = 3
   \<and> statusEffects defaultConfig 0 statusMsg
       ((allResolve 1700000000000)\<lparr>presenceOutcome := Some (Rejected ''closed'')\<rparr>)
     = [Call (SendPresenceUpdate (js ''recording'') (Some (js ''status@broadcast''))),
        LogError (Rejected ''closed'')]
   \<and> delays (statusEffects configWithoutMaxRetries 0 statusMsg
       ((allResolve 1700000000000)\<lparr>readOutcome :=
          (\<lambda>j. if j < 2 then Some (Rejected ''timed out'') else None)\<rparr>))
     = [1000, 2000]
   \<and> delays (statusEffects configWithoutMaxRetries 0 statusMsg
       ((allResolve 1700000000000)\<lparr>readOutcome :=
          (\<lambda>j. if j < 2 then Some (Rejected ''timed out'') else None)\<rparr>))
     \<noteq> [claimed_retryDelay 2, claimed_retryDelay 1]"
  by (simp add: status_eval)

text \<open>
  Claim C3, evaluated. \<open>lastStatusInteraction\<close> is assigned only after a reaction that was
  sent. With the default configuration five status events one second apart give one
  reaction. With \<open>AUTO_LIKE_STATUS\<close> set to \<open>false\<close> the same five events are all marked
  viewed and all get a recording presence, and \<open>lastStatusInteraction\<close> is still 0.
\<close>

theorem C3_status_cooldown_not_armed:
  "calls is_reaction (snd (statusRun defaultConfig 0 fiveStatusEvents)) = 1
   \<and> calls is_read (snd (statusRun configLikeOff 0 fiveStatusEvents)) = 5
   \<and> calls is_presence (snd (statusRun configLikeOff 0 fiveStatusEvents)) = 5
   \<and> fst (statusRun configLikeOff 0 fiveStatusEvents) = 0"
  by (simp add: status_eval)

section \<open>The command listener\<close>

lemma extractText_find:
  "extractText m =
     (case find truthy (subtypeTexts m) of
        None \<Rightarrow> []
      | Some t \<Rightarrow> trim (str_of t))"
  by (simp add: extractText_def subtypeTexts_def)

lemma truthy_iff: "truthy t \<longleftrightarrow> \<not> (t = None \<or> t = Some [])"
  by (cases t) simp_all

lemma find_first_present:
  "list_all (\<lambda>t. t = None \<or> t = Some []) pre \<Longrightarrow> s \<noteq> [] \<Longrightarrow>
   find truthy (pre @ Some s # post) = Some (Some s)"
  by (induction pre) (auto simp: truthy_iff)

lemma find_none_present:
  "list_all (\<lambda>t. t = None \<or> t = Some []) ts \<Longrightarrow> find truthy ts = None"
  by (induction ts) (auto simp: truthy_iff)

text \<open>
  Claim C7. The texts of the sub-types are taken in the order plain text, extended text,
  button reply, image caption, video caption. The first one that is present (a string
  that is not empty), the ones before it being absent or empty, gives the extracted text:
  its own text, trimmed. When none is present the extracted text is empty.
\<close>

theorem C7_extract_first_match:
  "(\<forall>pre s post.
      subtypeTexts m = pre @ Some s # post \<and> s \<noteq> []
        \<and> list_all (\<lambda>t. t = None \<or> t = Some []) pre
      \<longrightarrow> extractText m = trim s)
   \<and> (list_all (\<lambda>t. t = None \<or> t = Some []) (subtypeTexts m) \<longrightarrow> extractText m = [])"
  by (simp add: extractText_find find_first_present find_none_present)

lemma trim_menu: "trim (js ''  .menu '') = js ''.menu''"
  by code_simp

theorem C7_extract_first_match_witness:
  "subtypeTexts extendedContent
     = [Some []] @ Some (js ''  .menu '') # [None, Some (js ''.alive''), None]
   \<and> js ''  .menu '' \<noteq> []
   \<and> list_all (\<lambda>t. t = None \<or> t = Some []) [Some ([] :: jstring)]
   \<and> trim (js ''  .menu '') = js ''.menu''
   \<and> extractText extendedContent = js ''.menu''
   \<and> subtypeTexts stickerContent = [None, None, None, None, Some []]
   \<and> extractText stickerContent = []"
proof -
  have texts: "subtypeTexts extendedContent
     = [Some []] @ Some (js ''  .menu '') # [None, Some (js ''.alive''), None]"
    by (simp add: subtypeTexts_def extendedContent_def)
  have none: "subtypeTexts stickerContent = [None, None, None, None, Some []]"
    by (simp add: subtypeTexts_def stickerContent_def)
  have "extractText extendedContent = trim (js ''  .menu '')"
    using C7_extract_first_match [of extendedContent, THEN conjunct1, rule_format,
            of "[Some []]" "js ''  .menu ''" "[None, Some (js ''.alive''), None]"]
          texts
    by simp
  moreover have "extractText stickerContent = []"
    using C7_extract_first_match [of stickerContent, THEN conjunct2] none by simp
  ultimately show ?thesis
    using texts none by (simp add: trim_menu)
qed









lemmas command_eval =
  commandHandler_def extractText_def cmdMsg_def cmdKey_def cmdContent_def groupMsg_def
  get_prop_def defaultConfig_def configuredPrefix_def COMMAND_COOLDOWN_def Let_def

lemma asciiLowerCase_examples:
  "asciiLowerCase (js ''Config'') = js ''config''"
  "asciiLowerCase (js ''ping'') = js ''ping''"
  "asciiLowerCase (js ''alive'') = js ''alive''"
  "asciiLowerCase (js ''menu'') = js ''menu''"
  "asciiLowerCase (js ''config'') = js ''config''"
  by code_simp+

lemma token_examples:
  "split_ws (trim (drop (Suc 0) (trim (js ''.Config  set FOO bar''))))
     = [js ''Config'', js ''set'', js ''FOO'', js ''bar'']"
  "split_ws (trim (drop (Suc 0) (trim spacedPing)))
     = [js ''ping'', js ''now'']"
  "split_ws (trim (drop (Suc 0) (trim (js ''.ping'')))) = [js ''ping'']"
  "split_ws (trim (drop (Suc 0) (trim (js ''.alive'')))) = [js ''alive'']"
  "split_ws (trim (drop (Suc 0) (trim (js ''.menu'')))) = [js ''menu'']"
  "split_ws (trim (drop (Suc 0) (trim (js ''.config set FOO a  b''))))
     = [js ''config'', js ''set'', js ''FOO'', js ''a'', js ''b'']"
  by code_simp+

lemma prefix_examples:
  "startsWith (trim (js ''.Config  set FOO bar'')) (js ''.'')"
  "startsWith (trim spacedPing) (js ''.'')"
  "spacedPing \<noteq> []"
  "startsWith (trim (js ''.ping'')) (js ''.'')"
  "startsWith (trim (js ''.alive'')) (js ''.'')"
  "startsWith (trim (js ''.menu'')) (js ''.'')"
  "startsWith (trim (js ''.config set FOO a  b'')) (js ''.'')"
  "\<not> startsWith (trim (js ''hello there'')) (js ''.'')"
  by code_simp+



text \<open>
  Claim C6, evaluated. The comment of line 261 has the cooldown "per user"; the key of
  the cooldown map is \<open>msg.key.remoteJid\<close> (line 300), which for a message in a group
  is the group. One member who writes a command in each of two groups 400 ms apart has
  both commands dispatched; in one group, the command of a second member 400 ms after
  the first member's is dropped. In a private chat, where \<open>remoteJid\<close> is the other
  party, three commands within a second give one dispatch.
\<close>

theorem C6_cooldown_keyed_by_chat:
  "snd (commandRun asciiLowerCase defaultConfig Map.empty
          [(groupMsg familyGroup alice (js ''.ping''), 1700000000000),
           (groupMsg workGroup alice (js ''.alive''), 1700000000400)])
     = [Dispatched (js ''ping'') [], Dispatched (js ''alive'') []]
   \<and> snd (commandRun asciiLowerCase defaultConfig Map.empty
          [(groupMsg familyGroup alice (js ''.ping''), 1700000000000),
           (groupMsg familyGroup bob (js ''.alive''), 1700000000400)])
     = [Dispatched (js ''ping'') [], Ignored]
   \<and> snd (commandRun asciiLowerCase defaultConfig Map.empty
          [(cmdMsg (js ''.ping''), 1700000000000), (cmdMsg (js ''.alive''), 1700000000400),
           (cmdMsg (js ''.menu''), 1700000000900)])
     = [Dispatched (js ''ping'') [], Ignored, Ignored]"
  by (simp add: command_eval prefix_examples token_examples asciiLowerCase_examples
        familyGroup_def workGroup_def)

subsection \<open>The \<open>config\<close> and \<open>menu\<close> cases\<close>

lemma str_includes_startsWith: "startsWith s sub \<Longrightarrow> str_includes s sub"
  by (cases s) (auto simp: startsWith_def)

lemma str_includes_here: "str_includes (sub @ post) sub"
  by (rule str_includes_startsWith) (simp add: startsWith_def)

lemma str_includes_append: "str_includes (pre @ sub @ post) sub"
  by (induction pre) (simp_all add: str_includes_here)

lemma str_includes_concat: "x \<in> set xs \<Longrightarrow> str_includes (pre @ concat xs @ post) x"
proof -
  assume "x \<in> set xs"
  then obtain ys zs where "xs = ys @ x # zs" by (meson split_list)
  then have "pre @ concat xs @ post = (pre @ concat ys) @ x @ (concat zs @ post)" by simp
  then show ?thesis by (metis str_includes_append)
qed

lemma set_prop_mem: "(k, v) \<in> set (set_prop obj k v)"
  by (induction obj k v rule: set_prop.induct) auto

lemma get_set_prop: "get_prop (set_prop obj k v) k = Some v"
  by (induction obj k v rule: set_prop.induct) (auto simp: get_prop_def)

lemma set_entries: "set (entries obj) = set obj"
  by (auto simp: entries_def)

lemma configSet_result:
  "fst (configSet upper cfg number sender k vs env) =
     set_prop cfg (upper k)
       (if upper k = js ''AUTO_LIKE_EMOJI'' then JArr (split_on 0x2C (join (js '' '') vs))
        else JStr (join (js '' '') vs))"
  by (simp add: configSet_def Let_def split: option.splits)

lemma view_includes:
  "(k, v) \<in> set cfg \<Longrightarrow> str_includes (configText cfg) (viewLine (k, v))"
  unfolding configText_def
  by (rule str_includes_concat) (simp add: set_entries)

text \<open>
  Claim C9, amended. The command reaches the \<open>config\<close> case as its tokens: \<open>set\<close>, the
  key \<open>k\<close> and the tokens \<open>v, vs\<close> of the value. The value stored is these tokens joined
  by single spaces. After it, \<open>config view\<close> sends one text, the configuration text of
  the object the \<open>set\<close> left. For a key whose upper case (as \<open>toUpperCase\<close> gives it) is
  not \<open>AUTO_LIKE_EMOJI\<close> the object maps the upper-cased key to the value and the text
  has the line of that key and value; for \<open>AUTO_LIKE_EMOJI\<close> the object holds the list of
  the pieces of the value between its commas, in order, and the text has the line with
  these pieces joined by \<open>', '\<close>.
\<close>

theorem C9_config_roundtrip:
  "configCommand toUpperCase
       (fst (configCommand toUpperCase userConfig number sender prefix
               (js ''set'' # k # v # vs) env))
       number' sender' prefix' [js ''view''] env'
     = (fst (configCommand toUpperCase userConfig number sender prefix
               (js ''set'' # k # v # vs) env),
        [SendText sender'
           (configText (fst (configCommand toUpperCase userConfig number sender prefix
                               (js ''set'' # k # v # vs) env)))],
        sendOutcome env')
   \<and> (toUpperCase k \<noteq> js ''AUTO_LIKE_EMOJI'' \<longrightarrow>
        get_prop (fst (configCommand toUpperCase userConfig number sender prefix
                         (js ''set'' # k # v # vs) env))
          (toUpperCase k) = Some (JStr (join (js '' '') (v # vs)))
        \<and> str_includes
            (configText (fst (configCommand toUpperCase userConfig number sender prefix
                                (js ''set'' # k # v # vs) env)))
            ([0x2022] @ js '' '' @ toUpperCase k @ js '': '' @ join (js '' '') (v # vs)
               @ [0x000A]))
   \<and> (toUpperCase k = js ''AUTO_LIKE_EMOJI'' \<longrightarrow>
        get_prop (fst (configCommand toUpperCase userConfig number sender prefix
                         (js ''set'' # k # v # vs) env))
          (js ''AUTO_LIKE_EMOJI'') = Some (JArr (split_on 0x2C (join (js '' '') (v # vs))))
        \<and> str_includes
            (configText (fst (configCommand toUpperCase userConfig number sender prefix
                                (js ''set'' # k # v # vs) env)))
            ([0x2022] @ js '' AUTO_LIKE_EMOJI: ''
               @ join (js '', '') (split_on 0x2C (join (js '' '') (v # vs))) @ [0x000A]))"
proof -
  let ?cfg1 = "fst (configCommand toUpperCase userConfig number sender prefix
                      (js ''set'' # k # v # vs) env)"
  let ?val = "if toUpperCase k = js ''AUTO_LIKE_EMOJI''
              then JArr (split_on 0x2C (join (js '' '') (v # vs)))
              else JStr (join (js '' '') (v # vs))"
  have cfg1: "?cfg1 = set_prop userConfig (toUpperCase k) ?val"
    by (simp add: configSet_result)
  have mem: "(toUpperCase k, ?val) \<in> set ?cfg1"
    unfolding cfg1 by (rule set_prop_mem)
  have inc: "str_includes (configText ?cfg1) (viewLine (toUpperCase k, ?val))"
    by (rule view_includes [OF mem])
  have get: "get_prop ?cfg1 (toUpperCase k) = Some ?val"
    unfolding cfg1 by (rule get_set_prop)
  have view: "configCommand toUpperCase ?cfg1 number' sender' prefix' [js ''view''] env'
     = (?cfg1, [SendText sender' (configText ?cfg1)], sendOutcome env')"
    by (simp add: send_def)
  show ?thesis
  proof (cases "toUpperCase k = js ''AUTO_LIKE_EMOJI''")
    case True
    with inc get view show ?thesis by (simp add: viewLine_def js_def)
  next
    case False
    with inc get view show ?thesis by (simp add: viewLine_def)
  qed
qed

lemma asciiUpperCase_examples:
  "asciiUpperCase (js ''foo'') = js ''FOO''"
  "asciiUpperCase (js ''FOO'') = js ''FOO''"
  "asciiUpperCase (js ''auto_like_emoji'') = js ''AUTO_LIKE_EMOJI''"
  by code_simp+

lemma config_examples:
  "join (js '' '') [js ''bar''] = js ''bar''"
  "join (js '' '') [js ''a,b,c''] = js ''a,b,c''"
  "split_on 0x2C (js ''a,b,c'') = [js ''a'', js ''b'', js ''c'']"
  "join (js '', '') [js ''a'', js ''b'', js ''c''] = js ''a, b, c''"
  "js '' '' @ js ''FOO'' @ js '': '' @ js ''bar'' = js '' FOO: bar''"
  "js '' AUTO_LIKE_EMOJI: '' @ js ''a, b, c'' = js '' AUTO_LIKE_EMOJI: a, b, c''"
  by code_simp+

theorem C9_config_roundtrip_witness:
  "asciiUpperCase (js ''foo'') \<noteq> js ''AUTO_LIKE_EMOJI''
   \<and> get_prop (fst (configCommand asciiUpperCase defaultConfig (js ''94771234567'')
                      (remoteJid cmdKey) (js ''.'') [js ''set'', js ''foo'', js ''bar''] resolving))
        (js ''FOO'')
       = Some (JStr (js ''bar''))
   \<and> str_includes
        (configText (fst (configCommand asciiUpperCase defaultConfig (js ''94771234567'')
                            (remoteJid cmdKey) (js ''.'') [js ''set'', js ''foo'', js ''bar'']
                            resolving)))
        ([0x2022] @ js '' FOO: bar'' @ [0x000A])
   \<and> asciiUpperCase (js ''auto_like_emoji'') = js ''AUTO_LIKE_EMOJI''
   \<and> get_prop (fst (configCommand asciiUpperCase defaultConfig (js ''94771234567'')
                      (remoteJid cmdKey) (js ''.'')
                      [js ''set'', js ''auto_like_emoji'', js ''a,b,c''] resolving))
        (js ''AUTO_LIKE_EMOJI'')
       = Some (JArr [js ''a'', js ''b'', js ''c''])
   \<and> str_includes
        (configText (fst (configCommand asciiUpperCase defaultConfig (js ''94771234567'')
                            (remoteJid cmdKey) (js ''.'')
                            [js ''set'', js ''auto_like_emoji'', js ''a,b,c''] resolving)))
        ([0x2022] @ js '' AUTO_LIKE_EMOJI: a, b, c'' @ [0x000A])"
  using C9_config_roundtrip [of asciiUpperCase defaultConfig "js ''94771234567''"
          "remoteJid cmdKey" "js ''.''" "js ''foo''" "js ''bar''" "[]" resolving
          "js ''94771234567''" "remoteJid cmdKey" "js ''.''" resolving]
        C9_config_roundtrip [of asciiUpperCase defaultConfig "js ''94771234567''"
          "remoteJid cmdKey" "js ''.''" "js ''auto_like_emoji''" "js ''a,b,c''" "[]" resolving
          "js ''94771234567''" "remoteJid cmdKey" "js ''.''" resolving]
  by (simp add: asciiUpperCase_examples config_examples js_append)

text \<open>
  Claim C9 as stated fails for a value with a run of white space. The message
  \<open>.config set FOO a  b\<close>, with two spaces in the value, reaches the \<open>config\<close> case as
  the tokens \<open>set\<close>, \<open>FOO\<close>, \<open>a\<close>, \<open>b\<close>; the value stored and shown is \<open>a b\<close>, with
  one space, and the text of \<open>config view\<close> has no \<open>FOO: a  b\<close>.
\<close>

theorem C9_counterexample:
  "commandHandler asciiLowerCase defaultConfig Map.empty
       (cmdMsg (js ''.config set FOO a  b'')) 1700000000000
     = (Map.empty(remoteJid cmdKey \<mapsto> 1700000000000),
        Dispatched (js ''config'') [js ''set'', js ''FOO'', js ''a'', js ''b''])
   \<and> get_prop (fst (configCommand asciiUpperCase defaultConfig (js ''94771234567'')
                      (remoteJid cmdKey) (js ''.'') [js ''set'', js ''FOO'', js ''a'', js ''b'']
                      resolving))
        (js ''FOO'')
       = Some (JStr (js ''a b''))
   \<and> js ''a b'' \<noteq> js ''a  b''
   \<and> str_includes
        (configText (fst (configCommand asciiUpperCase defaultConfig (js ''94771234567'')
                            (remoteJid cmdKey) (js ''.'')
                            [js ''set'', js ''FOO'', js ''a'', js ''b''] resolving)))
        ([0x2022] @ js '' FOO: a b'' @ [0x000A])
   \<and> \<not> str_includes
        (configText (fst (configCommand asciiUpperCase defaultConfig (js ''94771234567'')
                            (remoteJid cmdKey) (js ''.'')
                            [js ''set'', js ''FOO'', js ''a'', js ''b''] resolving)))
        (js ''FOO: a  b'')"
proof (intro conjI)
  show "commandHandler asciiLowerCase defaultConfig Map.empty
       (cmdMsg (js ''.config set FOO a  b'')) 1700000000000
     = (Map.empty(remoteJid cmdKey \<mapsto> 1700000000000),
        Dispatched (js ''config'') [js ''set'', js ''FOO'', js ''a'', js ''b''])"
    by (simp add: command_eval prefix_examples token_examples asciiLowerCase_examples)
qed code_simp+

text \<open>
  Claim C10. When no binding of the rest of the module is named \<open>config\<close>, as none of
  the source at hand is, the \<open>menu\<close> case throws a \<open>ReferenceError\<close> for \<open>config\<close> and
  has sent nothing: the menu image with its caption is not sent.
\<close>

theorem C10_menu_reference_error:
  assumes "map_of later ''config'' = None"
  shows "menuCommand later userConfig number sender env = ([], Some (ReferenceError ''config''))"
  using assms by (simp add: menuCommand_def resolve_def scope_def Let_def)

theorem C10_menu_reference_error_witness:
  "map_of ([] :: (string \<times> jsobject) list) ''config'' = None
   \<and> menuCommand [] defaultConfig (js ''94771234567'') (remoteJid cmdKey) menuEnv
       = ([], Some (ReferenceError ''config''))"
  using C10_menu_reference_error [of "[]" defaultConfig "js ''94771234567''" "remoteJid cmdKey" menuEnv]
  by simp

section \<open>The cleanup of duplicate session files\<close>

lemma set_insert_sorted [simp]: "set (insert_sorted cmp x xs) = insert x (set xs)"
  by (induction xs) auto

lemma set_js_sort [simp]: "set (js_sort cmp xs) = set xs"
  by (induction xs) auto

lemma length_insert_sorted [simp]: "length (insert_sorted cmp x xs) = Suc (length xs)"
  by (induction xs) auto

lemma length_js_sort [simp]: "length (js_sort cmp xs) = length xs"
  by (induction xs) auto

lemma distinct_insert_sorted [simp]:
  "distinct (insert_sorted cmp x xs) = (x \<notin> set xs \<and> distinct xs)"
  by (induction xs) auto

lemma distinct_js_sort [simp]: "distinct (js_sort cmp xs) = distinct xs"
  by (induction xs) auto

lemma newest_first_insert:
  "newest_first fs \<Longrightarrow> newest_first (insert_sorted byTimeDesc f fs)"
  unfolding newest_first_def
  by (induction fs) (auto simp: byTimeDesc_def)

lemma newest_first_js_sort: "newest_first (js_sort byTimeDesc fs)"
proof (induction fs)
  case Nil
  show ?case by (simp add: newest_first_def)
next
  case (Cons f fs)
  then show ?case by (simp add: newest_first_insert)
qed

lemma deleteLoop_all_resolve:
  "\<forall>f \<in> set fs. del f = None \<Longrightarrow> deleteLoop del fs = (fs, None)"
  by (induction fs) auto

lemma not_digit_sep: "\<not> is_digit 0x5F" "\<not> is_digit 0x2E"
  by (simp_all add: is_digit_def)

lemma takeWhile_digits:
  "list_all is_digit ds \<Longrightarrow> \<not> is_digit c \<Longrightarrow> takeWhile is_digit (ds @ c # rest) = ds"
  by (induction ds) simp_all

lemma dropWhile_digits:
  "list_all is_digit ds \<Longrightarrow> \<not> is_digit c \<Longrightarrow> dropWhile is_digit (ds @ c # rest) = c # rest"
  by (induction ds) simp_all

lemma match_here_naming:
  assumes n: "n \<noteq> []" "list_all is_digit n" and ts: "ts \<noteq> []" "list_all is_digit ts"
  shows "match_here (js ''creds_'' @ n @ js ''_'' @ ts @ js ''.json'') = Some ts"
  unfolding match_here_def
  by (simp add: js_def startsWith_def Let_def takeWhile_digits dropWhile_digits
        not_digit_sep n ts)

lemma match_group_naming:
  assumes "n \<noteq> []" "list_all is_digit n" "ts \<noteq> []" "list_all is_digit ts"
  shows "match_group (js ''creds_'' @ n @ js ''_'' @ ts @ js ''.json'') = Some ts"
  using match_here_naming [OF assms] by (simp add: js_def)

lemma naming_is_session_file:
  assumes "matchesNaming n nm" "n \<noteq> []" "list_all is_digit n"
  shows "timeOf nm = embeddedTimestamp n nm"
    and "startsWith nm (js ''creds_'' @ n @ js ''_'')" and "endsWith nm (js ''.json'')"
proof -
  let ?ts = "embedded n nm"
  from assms(1) have nm: "nm = js ''creds_'' @ n @ js ''_'' @ ?ts @ js ''.json''"
    and ts: "?ts \<noteq> []" "list_all is_digit ?ts"
    by (simp_all add: matchesNaming_def)
  have "match_group nm = Some ?ts"
    by (subst nm) (rule match_group_naming [OF assms(2,3) ts])
  then show "timeOf nm = embeddedTimestamp n nm"
    by (simp add: timeOf_def embeddedTimestamp_def)
  show "startsWith nm (js ''creds_'' @ n @ js ''_'')"
    by (subst nm) (simp add: startsWith_def)
  show "endsWith nm (js ''.json'')"
    by (subst nm) (simp add: endsWith_def)
qed


lemma sessionFiles_set:
  "set (sessionFiles number data) = {f \<in> set data. isSessionFile (sanitize number) f}"
  by (auto simp: sessionFiles_def)

lemma sessionFiles_newest_first: "newest_first (sessionFiles number data)"
  by (simp add: sessionFiles_def newest_first_js_sort)

lemma sanitize_digits: "list_all is_digit (sanitize number)"
  by (simp add: sanitize_def list_all_iff)

text \<open>
  \<open>parseInt\<close> of a run of decimal digits that is not empty is the decimal value of the
  run, which is how \<^const>\<open>timeOf\<close> reads group 1.
\<close>

lemma parseInt_digits:
  assumes "ds \<noteq> []" and "list_all is_digit ds"
  shows "parseInt ds = Some (digits_value ds)"
proof -
  obtain c cs where ds: "ds = c # cs" using assms(1) by (cases ds) auto
  have c: "is_digit c" using assms(2) ds by simp
  have nospace: "\<not> is_space c" using c by (auto simp: is_digit_def is_space_def)
  have nosign: "[c] \<noteq> js ''-''" "[c] \<noteq> js ''+''" using c by (auto simp: is_digit_def js_def)
  have nohex: "take 2 ds \<noteq> js ''0x''" "take 2 ds \<noteq> js ''0X''"
    using assms(2) ds by (cases cs; auto simp: is_digit_def js_def)+
  have all: "takeWhile is_digit ds = ds"
    using assms(2) by (simp add: takeWhile_eq_all_conv list_all_iff)
  have s1: "dropWhile is_space ds = ds" using nospace ds by simp
  have t1: "take (Suc 0) ds = [c]" using ds by simp
  have "parseInt ds =
          (if takeWhile is_digit ds = [] then None
           else Some (digits_value (takeWhile is_digit ds)))"
    by (simp add: parseInt_def s1 t1 Let_def nosign nohex)
  also have "\<dots> = Some (digits_value ds)"
    unfolding all using assms(1) by simp
  finally show ?thesis .
qed

lemma js_sort_sort_key:
  "js_sort byTimeDesc fs = sort_key (\<lambda>f. - timeOf (name f)) fs"
proof (induction fs)
  case Nil
  show ?case by simp
next
  case (Cons f fs)
  have "insert_sorted byTimeDesc f gs = insort_key (\<lambda>f. - timeOf (name f)) f gs" for gs
    by (induction gs) (simp_all add: byTimeDesc_def)
  with Cons show ?case by simp
qed

lemma sessionFiles_stable:
  "filter (\<lambda>f. timeOf (name f) = t) (sessionFiles number data)
     = filter (\<lambda>f. timeOf (name f) = t) (filter (isSessionFile (sanitize number)) data)"
  using sort_key_stable [of "\<lambda>f. - timeOf (name f)" "- t"
          "filter (isSessionFile (sanitize number)) data"]
  by (simp add: sessionFiles_def js_sort_sort_key)

text \<open>
  Claim C2, amended. When the client is configured, the listing and every deletion
  resolve, and the timestamps the code reads from the listed names are at most \<open>2 ^ 53\<close>
  (where the number \<open>parseInt\<close> returns is exact), the cleanup deletes every file of
  \<open>sessionFiles\<close> but the first, in the order of \<open>sessionFiles\<close>. \<open>sessionFiles\<close> holds the
  listed files whose name starts with \<open>creds_<digits of the number>_\<close> and ends with
  \<open>.json\<close>, ordered by timestamp descending, the files of equal timestamp in the order
  of the listing; its first file, the one retained, has a timestamp no file deleted
  exceeds; and when the timestamps of these files are pairwise distinct the files deleted
  are exactly those whose timestamp is below the retained file's. A listed file named
  \<open>creds_<number>_<timestamp>.json\<close> for the digits of the number (not empty) is among
  them, with the decimal value of \<open><timestamp>\<close> as its timestamp.
\<close>

theorem C2_keep_newest:
  assumes "octokit = Some client" and "getContent client = Inr data"
    and "\<forall>f \<in> set data. deleteFile client f = None"
    and "\<forall>f \<in> set data. timeOf (name f) \<le> 2 ^ 53"
  shows "cleanDuplicateFiles octokit number = (drop 1 (sessionFiles number data), None)
    \<and> set (sessionFiles number data) = {f \<in> set data. isSessionFile (sanitize number) f}
    \<and> newest_first (sessionFiles number data)
    \<and> (\<forall>t. filter (\<lambda>f. timeOf (name f) = t) (sessionFiles number data)
             = filter (\<lambda>f. timeOf (name f) = t)
                 (filter (isSessionFile (sanitize number)) data))
    \<and> (\<forall>kept rest. sessionFiles number data = kept # rest
          \<longrightarrow> (\<forall>f \<in> set rest. timeOf (name f) \<le> timeOf (name kept)))
    \<and> (\<forall>kept rest. sessionFiles number data = kept # rest
            \<and> distinct (map (\<lambda>f. timeOf (name f)) (sessionFiles number data))
          \<longrightarrow> kept \<notin> set rest
              \<and> set rest = {f \<in> set data. isSessionFile (sanitize number) f
                                \<and> timeOf (name f) < timeOf (name kept)})
    \<and> (\<forall>f \<in> set data. sanitize number \<noteq> [] \<and> matchesNaming (sanitize number) (name f)
          \<longrightarrow> f \<in> set (sessionFiles number data)
              \<and> timeOf (name f) = embeddedTimestamp (sanitize number) (name f))"
proof (intro conjI allI impI ballI)
  let ?S = "sessionFiles number data"
  have sub: "set (drop 1 ?S) \<subseteq> set data"
    using set_drop_subset [of 1 ?S] by (auto simp: sessionFiles_set)
  then have "deleteLoop (deleteFile client) (drop 1 ?S) = (drop 1 ?S, None)"
    using assms(3) by (intro deleteLoop_all_resolve) blast
  moreover have "\<not> 1 < length ?S \<Longrightarrow> drop 1 ?S = []" by simp
  ultimately show "cleanDuplicateFiles octokit number = (drop 1 ?S, None)"
    by (simp add: cleanDuplicateFiles_def assms(1,2))
next
  show "set (sessionFiles number data) = {f \<in> set data. isSessionFile (sanitize number) f}"
    by (rule sessionFiles_set)
next
  show "newest_first (sessionFiles number data)"
    by (rule sessionFiles_newest_first)
next
  fix t
  show "filter (\<lambda>f. timeOf (name f) = t) (sessionFiles number data)
          = filter (\<lambda>f. timeOf (name f) = t) (filter (isSessionFile (sanitize number)) data)"
    by (rule sessionFiles_stable)
next
  fix kept rest f
  assume "sessionFiles number data = kept # rest" and "f \<in> set rest"
  with sessionFiles_newest_first [of number data]
  show "timeOf (name f) \<le> timeOf (name kept)"
    by (simp add: newest_first_def)
next
  fix kept rest
  assume a: "sessionFiles number data = kept # rest
            \<and> distinct (map (\<lambda>f. timeOf (name f)) (sessionFiles number data))"
  then show "kept \<notin> set rest" by auto
next
  fix kept rest
  assume a: "sessionFiles number data = kept # rest
            \<and> distinct (map (\<lambda>f. timeOf (name f)) (sessionFiles number data))"
  then have S: "sessionFiles number data = kept # rest" by simp
  from a have d: "distinct (map (\<lambda>f. timeOf (name f)) (kept # rest))"
    by (simp only: S)
  have le: "\<forall>f \<in> set rest. timeOf (name f) \<le> timeOf (name kept)"
    using sessionFiles_newest_first [of number data] S by (simp add: newest_first_def)
  from d have "timeOf (name kept) \<notin> (\<lambda>f. timeOf (name f)) ` set rest" by simp
  then have ne: "\<forall>f \<in> set rest. timeOf (name f) \<noteq> timeOf (name kept)"
    by (metis imageI)
  have all: "insert kept (set rest) = {f \<in> set data. isSessionFile (sanitize number) f}"
    using sessionFiles_set [of number data] S by simp
  show "set rest = {f \<in> set data. isSessionFile (sanitize number) f
                      \<and> timeOf (name f) < timeOf (name kept)}"
  proof (intro set_eqI iffI)
    fix f assume "f \<in> set rest"
    with le ne all show "f \<in> {f \<in> set data. isSessionFile (sanitize number) f
                      \<and> timeOf (name f) < timeOf (name kept)}"
      by (smt (verit) insertCI mem_Collect_eq)
  next
    fix f assume "f \<in> {f \<in> set data. isSessionFile (sanitize number) f
                      \<and> timeOf (name f) < timeOf (name kept)}"
    then have "f \<in> insert kept (set rest)" "f \<noteq> kept" using all by auto
    then show "f \<in> set rest" by simp
  qed
next
  fix f
  assume f: "f \<in> set data"
    and m: "sanitize number \<noteq> [] \<and> matchesNaming (sanitize number) (name f)"
  note n = naming_is_session_file [OF conjunct2 [OF m] conjunct1 [OF m] sanitize_digits]
  show "f \<in> set (sessionFiles number data)"
    using f n(2,3) by (simp add: sessionFiles_set isSessionFile_def)
  show "timeOf (name f) = embeddedTimestamp (sanitize number) (name f)"
    by (rule n(1))
qed


lemma times555: "map (\<lambda>f. timeOf (name f)) data555 = [100, 50, 200]"
  by code_simp

lemma sessionFiles555:
  "sessionFiles (js ''555'') data555
     = [sessionFile (js ''creds_555_200.json''), sessionFile (js ''creds_555_100.json''),
        sessionFile (js ''creds_555_50.json'')]"
  by code_simp

lemma matching555:
  "sanitize (js ''555'') = js ''555''"
  "matchesNaming (js ''555'') (name (sessionFile (js ''creds_555_200.json'')))"
  "embeddedTimestamp (js ''555'') (name (sessionFile (js ''creds_555_200.json''))) = 200"
  by code_simp+

lemma distinct555: "distinct (map (\<lambda>f. timeOf (name f)) (sessionFiles (js ''555'') data555))"
  by code_simp

lemma timesTied: "map (\<lambda>f. timeOf (name f)) dataTied = [100, 100, 0]"
  by code_simp

lemma listedTied:
  "filter (\<lambda>f. timeOf (name f) = 100) (filter (isSessionFile (sanitize (js ''555''))) dataTied)
     = [sessionFile (js ''creds_555_100.json''), sessionFile (js ''creds_555_0100.json'')]"
  by code_simp

theorem C2_keep_newest_witness:
  "getContent (archive data555) = Inr data555
   \<and> deleteFile (archive data555) = (\<lambda>f. None)
   \<and> map (\<lambda>f. timeOf (name f)) data555 = [100, 50, 200]
   \<and> sessionFiles (js ''555'') data555
       = sessionFile (js ''creds_555_200.json'')
           # [sessionFile (js ''creds_555_100.json''), sessionFile (js ''creds_555_50.json'')]
   \<and> distinct (map (\<lambda>f. timeOf (name f)) (sessionFiles (js ''555'') data555))
   \<and> sanitize (js ''555'') \<noteq> [] \<and> sessionFile (js ''creds_555_200.json'') \<in> set data555
   \<and> matchesNaming (sanitize (js ''555'')) (name (sessionFile (js ''creds_555_200.json'')))
   \<and> cleanDuplicateFiles (Some (archive data555)) (js ''555'')
       = ([sessionFile (js ''creds_555_100.json''), sessionFile (js ''creds_555_50.json'')], None)
   \<and> sessionFile (js ''creds_555_200.json'')
       \<notin> set [sessionFile (js ''creds_555_100.json''), sessionFile (js ''creds_555_50.json'')]
   \<and> timeOf (name (sessionFile (js ''creds_555_200.json''))) = 200
   \<and> map (\<lambda>f. timeOf (name f)) dataTied = [100, 100, 0]
   \<and> filter (\<lambda>f. timeOf (name f) = 100) (sessionFiles (js ''555'') dataTied)
       = [sessionFile (js ''creds_555_100.json''), sessionFile (js ''creds_555_0100.json'')]"
proof -
  have get: "getContent (archive data555) = Inr data555" by (simp add: archive_def)
  have del: "deleteFile (archive data555) = (\<lambda>f. None)" by (simp add: archive_def)
  have dels: "\<forall>f \<in> set data555. deleteFile (archive data555) f = None" by (simp add: del)
  have bound: "\<forall>f \<in> set data555. timeOf (name f) \<le> 2 ^ 53"
    using times555 by (simp add: data555_def)
  have mem: "sessionFile (js ''creds_555_200.json'') \<in> set data555" by (simp add: data555_def)
  have sane: "sanitize (js ''555'') \<noteq> []" by (simp add: matching555(1))
  have nam: "matchesNaming (sanitize (js ''555'')) (name (sessionFile (js ''creds_555_200.json'')))"
    by (simp add: matching555)
  have sf: "sessionFiles (js ''555'') data555
       = sessionFile (js ''creds_555_200.json'')
           # [sessionFile (js ''creds_555_100.json''), sessionFile (js ''creds_555_50.json'')]"
    by (rule sessionFiles555)
  note T = C2_keep_newest [OF refl get dels bound, of "js ''555''"]
  note rest = T [THEN conjunct2, THEN conjunct2, THEN conjunct2, THEN conjunct2, THEN conjunct2]
  have deleted: "cleanDuplicateFiles (Some (archive data555)) (js ''555'')
       = ([sessionFile (js ''creds_555_100.json''), sessionFile (js ''creds_555_50.json'')], None)"
    using T [THEN conjunct1] unfolding sf by simp
  have kept: "sessionFile (js ''creds_555_200.json'')
         \<notin> set [sessionFile (js ''creds_555_100.json''), sessionFile (js ''creds_555_50.json'')]"
    using rest [THEN conjunct1, rule_format, OF conjI [OF sf distinct555]]
    by (rule conjunct1)
  have time: "timeOf (name (sessionFile (js ''creds_555_200.json''))) = 200"
    using rest [THEN conjunct2, rule_format, OF mem conjI [OF sane nam]]
    by (simp only: matching555)
  have getT: "getContent (archive dataTied) = Inr dataTied" by (simp add: archive_def)
  have delsT: "\<forall>f \<in> set dataTied. deleteFile (archive dataTied) f = None"
    by (simp add: archive_def)
  have boundT: "\<forall>f \<in> set dataTied. timeOf (name f) \<le> 2 ^ 53"
    using timesTied by (simp add: dataTied_def)
  note U = C2_keep_newest [OF refl getT delsT boundT, of "js ''555''"]
  have tied: "filter (\<lambda>f. timeOf (name f) = 100) (sessionFiles (js ''555'') dataTied)
       = [sessionFile (js ''creds_555_100.json''), sessionFile (js ''creds_555_0100.json'')]"
    using U [THEN conjunct2, THEN conjunct2, THEN conjunct2, THEN conjunct1, rule_format,
             of 100]
    by (simp only: listedTied)
  show ?thesis
    using get del times555 sf distinct555 sane mem nam deleted kept time timesTied tied
    by blast
qed

text \<open>
  Claim C2 as stated fails. The archive lists \<open>creds_555_100.json\<close>,
  \<open>creds_555_0100.json\<close> and \<open>creds_555_backup.json\<close>. No file that matches
  \<open>creds_555_<timestamp>.json\<close> has a timestamp below the maximum, 100, so the claim has
  nothing deleted; the cleanup deletes \<open>creds_555_0100.json\<close>, whose timestamp is the
  maximum, and \<open>creds_555_backup.json\<close>, which has no timestamp.
\<close>

theorem C2_counterexample:
  "claimed_deleted (js ''555'') dataTied = []
   \<and> cleanDuplicateFiles (Some (archive dataTied)) (js ''555'')
       = ([sessionFile (js ''creds_555_0100.json''), sessionFile (js ''creds_555_backup.json'')], None)"
  by code_simp

section \<open>One session per phone number\<close>

lemma keys_map_set: "fst ` set (map_set m k v) = insert k (fst ` set m)"
  by (induction m k v rule: map_set.induct) auto

lemma distinct_map_set:
  "distinct (map fst m) \<Longrightarrow> distinct (map fst (map_set m k v))"
proof (induction m k v rule: map_set.induct)
  case (1 k v)
  show ?case by simp
next
  case (2 k' v' rest k v)
  then show ?case by (auto simp: keys_map_set)
qed

lemma distinct_map_delete:
  "distinct (map fst m) \<Longrightarrow> distinct (map fst (map_delete m k))"
  by (simp add: map_delete_def distinct_map_filter)

lemma distinct_keys_at_most_one:
  "distinct (map fst m) \<Longrightarrow> length (filter (\<lambda>kv. fst kv = k) m) \<le> 1"
proof (induction m)
  case Nil
  show ?case by simp
next
  case (Cons kv m)
  show ?case
  proof (cases "fst kv = k")
    case True
    with Cons.prems have "k \<notin> fst ` set m" by simp
    then have "filter (\<lambda>kv. fst kv = k) m = []"
      by (force simp: filter_empty_conv)
    with True show ?thesis by simp
  next
    case False
    with Cons show ?thesis by simp
  qed
qed

lemma apply_op_distinct:
  "distinct (map fst (activeSockets st)) \<Longrightarrow>
   distinct (map fst (activeSockets (apply_op st op)))"
  by (cases op)
     (auto simp: startSession_def stopSession_def handleDisconnect_def
                 distinct_map_set distinct_map_delete
           split: option.splits)

lemma run_ops_distinct:
  "distinct (map fst (activeSockets st)) \<Longrightarrow>
   distinct (map fst (activeSockets (run_ops st ops)))"
  unfolding run_ops_def
  by (induction ops arbitrary: st) (simp_all add: apply_op_distinct)

text \<open>
  Claim C1. An operation (start, stop, disconnect handling) on a state with at most one
  active entry per phone number leaves at most one entry per phone number; and every state
  reached from the empty maps by such operations has at most one entry for every number.
\<close>

theorem C1_one_session_per_number:
  "(distinct (map fst (activeSockets st))
      \<longrightarrow> distinct (map fst (activeSockets (apply_op st op)))
          \<and> length (sessions_of (apply_op st op) number) \<le> 1)
   \<and> length (sessions_of (run_ops initial_state ops) number) \<le> 1"
proof (intro conjI impI)
  assume d: "distinct (map fst (activeSockets st))"
  then show d': "distinct (map fst (activeSockets (apply_op st op)))"
    by (rule apply_op_distinct)
  show "length (sessions_of (apply_op st op) number) \<le> 1"
    unfolding sessions_of_def by (rule distinct_keys_at_most_one [OF d'])
next
  have "distinct (map fst (activeSockets (run_ops initial_state ops)))"
    by (rule run_ops_distinct) (simp add: initial_state_def)
  then show "length (sessions_of (run_ops initial_state ops) number) \<le> 1"
    unfolding sessions_of_def by (rule distinct_keys_at_most_one)
qed

theorem C1_one_session_per_number_witness:
  "distinct (map fst (activeSockets initial_state))
   \<and> length (sessions_of (apply_op initial_state
                (Start (js ''94771234567'') defaultConfig False True 1 1700000000000))
              (js ''94771234567'')) = 1
   \<and> length (sessions_of (run_ops initial_state
                [Start (js ''94771234567'') defaultConfig False True 1 1700000000000,
                 Start (js ''94771234567'') defaultConfig True True 2 1700000005000,
                 Disconnect (js ''94771234567'') (Some 3),
                 Start (js ''94770000000'') defaultConfig False True 4 1700000006000])
              (js ''94771234567'')) = 1
   \<and> length (sessions_of (run_ops initial_state
                [Start (js ''94771234567'') defaultConfig False True 1 1700000000000,
                 Stop (js ''94771234567'')])
              (js ''94771234567'')) = 0"
  using C1_one_session_per_number [of initial_state
          "Start (js ''94771234567'') defaultConfig False True 1 1700000000000" "js ''94771234567''"
          "[Start (js ''94771234567'') defaultConfig False True 1 1700000000000,
            Start (js ''94771234567'') defaultConfig True True 2 1700000005000,
            Disconnect (js ''94771234567'') (Some 3),
            Start (js ''94770000000'') defaultConfig False True 4 1700000006000]"]
  by (simp add: sessions_of_def run_ops_def initial_state_def startSession_def
        stopSession_def handleDisconnect_def map_has_def map_delete_def)

end
